theory Spec2Isabelle
  imports Complex_Main "HOL-Library.Char_ord" "HOL-Library.List_Lexorder" "HOL-Library.Log_Nat"
begin

section \<open>Library functions the pipeline calls\<close>

text \<open>
  The pipeline of \<^verbatim>\<open>video_background_remover.py\<close> and \<^verbatim>\<open>batch_processor.py\<close> is
  glue between the file system, OpenCV, rembg and ffmpeg. Paths are Python strings,
  file contents are byte strings. The few pure library functions the code calls on
  paths are modelled here after the POSIX versions of the Python standard library.
\<close>

type_synonym path = string
type_synonym bytes = "nat list"

text \<open>\<^verbatim>\<open>os.path.join(a, b)\<close> (posixpath, two components).\<close>

definition os_path_join :: "path \<Rightarrow> string \<Rightarrow> path" where
  "os_path_join a b =
     (case b of
        c # cs \<Rightarrow>
          if c = CHR ''/'' then b
          else if a = [] \<or> last a = CHR ''/'' then a @ b
          else a @ ''/'' @ b
      | [] \<Rightarrow> if a = [] \<or> last a = CHR ''/'' then a else a @ ''/'')"

text \<open>\<^verbatim>\<open>os.path.dirname(p)\<close>: everything up to the last slash, trailing slashes
  removed unless the head consists of slashes only.\<close>

definition os_path_dirname :: "path \<Rightarrow> path" where
  "os_path_dirname p =
     (let head = rev (dropWhile (\<lambda>c. c \<noteq> CHR ''/'') (rev p))
      in if head \<noteq> [] \<and> \<not> list_all (\<lambda>c. c = CHR ''/'') head
         then rev (dropWhile (\<lambda>c. c = CHR ''/'') (rev head))
         else head)"

text \<open>\<^verbatim>\<open>Path(p).stem\<close>: the last path component (empty and \<^verbatim>\<open>.\<close> components are
  dropped by pathlib) without its final suffix; a leading or a trailing dot starts no
  suffix.\<close>

primrec split_on :: "char \<Rightarrow> string \<Rightarrow> string list" where
  "split_on c [] = [[]]"
| "split_on c (x # xs) =
     (if x = c then [] # split_on c xs
      else (case split_on c xs of
              [] \<Rightarrow> [[x]]
            | y # ys \<Rightarrow> (x # y) # ys))"

definition path_name :: "path \<Rightarrow> string" where
  "path_name p =
     (case rev (filter (\<lambda>s. s \<noteq> [] \<and> s \<noteq> ''.'') (split_on CHR ''/'' p)) of
        [] \<Rightarrow> []
      | n # _ \<Rightarrow> n)"

definition path_stem :: "path \<Rightarrow> string" where
  "path_stem p =
     (let name = path_name p;
          i = length (dropWhile (\<lambda>c. c \<noteq> CHR ''.'') (rev name))
      in if 1 < i \<and> i < length name then take (i - 1) name else name)"

text \<open>Decimal formatting of a non-negative integer, and the format \<^verbatim>\<open>{i:06d}\<close>:
  zero-padded to a width of at least six.\<close>

definition digit_char :: "nat \<Rightarrow> char" where
  "digit_char d = ''0123456789'' ! d"

fun str_nat :: "nat \<Rightarrow> string" where
  "str_nat n = (if n < 10 then [digit_char n] else str_nat (n div 10) @ [digit_char (n mod 10)])"

declare str_nat.simps [simp del]

definition fmt_06d :: "nat \<Rightarrow> string" where
  "fmt_06d i = replicate (6 - length (str_nat i)) CHR ''0'' @ str_nat i"

text \<open>Reading a decimal string back, used to show that the frame names are pairwise
  different.\<close>

definition digit_val :: "char \<Rightarrow> nat" where
  "digit_val c = of_char c - 48"

definition nat_of_digits :: "string \<Rightarrow> nat" where
  "nat_of_digits s = foldl (\<lambda>acc c. 10 * acc + digit_val c) 0 s"


section \<open>Exceptions, the environment and the world\<close>

text \<open>
  A Python exception is a value; \<open>exn_message\<close> is \<^verbatim>\<open>str(e)\<close>. The messages of the
  source are Chinese; they are rendered in English here. \<open>ExternalError\<close> stands for
  whatever an external library (rembg, OpenCV) raises.
\<close>

datatype exn = ValueError string | OSError string | IndexError string | ExternalError string

fun exn_message :: "exn \<Rightarrow> string" where
  "exn_message (ValueError m) = m"
| "exn_message (OSError m) = m"
| "exn_message (IndexError m) = m"
| "exn_message (ExternalError m) = m"

text \<open>A decoded image as numpy holds it: its shape and the flat row-major data.\<close>

record image =
  shape :: "nat list"
  pixels :: "nat list"

text \<open>
  What \<^verbatim>\<open>cv2.VideoCapture\<close> gives for a container that opens: the metadata, and the
  frames that \<^verbatim>\<open>cap.read()\<close> returns with \<^verbatim>\<open>ret = True\<close> before the first
  \<^verbatim>\<open>ret = False\<close>, each as the PNG bytes \<^verbatim>\<open>cv2.imwrite\<close> stores for it.
\<close>

record video =
  v_fps :: rat
  v_frame_count :: int
  v_width :: nat
  v_height :: nat
  v_frames :: "bytes list"

text \<open>
  The dictionaries the pipeline returns. \<open>video_result\<close> is the result of
  \<^verbatim>\<open>process_video\<close>; \<open>job_result\<close> is what \<^verbatim>\<open>process_single_video\<close> returns: on
  success the result of \<^verbatim>\<open>process_video\<close> updated with status, time and name, on
  failure a dictionary with status, error message, time, name, input and output
  directory. \<open>batch_stats\<close> is the statistics of \<^verbatim>\<open>process_batch\<close> (the early return
  for an empty directory has no \<^verbatim>\<open>total_time\<close>).
\<close>

record video_result =
  r_input_video :: path
  r_output_dir :: path
  r_frame_count :: nat
  r_fps :: rat
  r_resolution :: "nat \<times> nat"
  r_output_mp4 :: path
  r_output_webm :: "path option"
  r_frames_dir :: path
  r_processed_frames_dir :: path

record job_result =
  j_status :: string
  j_error :: "string option"
  j_processing_time :: rat
  j_video_name :: string
  j_input_video :: path
  j_output_dir :: path
  j_video :: "video_result option"

record batch_stats =
  s_total :: nat
  s_success :: nat
  s_failed :: nat
  s_total_time :: "rat option"
  s_results :: "job_result list"

text \<open>
  The environment holds everything the code asks of its collaborators: which
  containers open, which directories and files can be created, the segmentation
  model, the image decoder, the resizing of an image, the exit status of
  a shell command, the readings of the clock, the directory listing and the
  serialisation of the report (with its time stamp).
\<close>

record env =
  capture :: "path \<Rightarrow> video option"
  can_makedirs :: "path \<Rightarrow> bool"
  can_write :: "path \<Rightarrow> bool"
  segment :: "bytes \<Rightarrow> exn + bytes"
  imdecode :: "bytes \<Rightarrow> image option"
  writer_opens :: "path \<Rightarrow> bool"
  resize :: "image \<Rightarrow> nat \<Rightarrow> nat \<Rightarrow> exn + image"
  str_float :: "rat \<Rightarrow> string"
  system :: "string \<Rightarrow> int"
  now :: "nat \<Rightarrow> rat"
  path_exists :: "path \<Rightarrow> bool"
  glob :: "path \<Rightarrow> string \<Rightarrow> path list"
  json_report :: "string \<Rightarrow> int option \<Rightarrow> batch_stats \<Rightarrow> bytes"

text \<open>
  The world is what the code changes: the files it writes, the videos the
  \<^verbatim>\<open>cv2.VideoWriter\<close> produced (the frames handed to it, in order), the shell commands
  it ran with their exit status, and the number of clock readings taken so far.
\<close>

record world =
  files :: "path \<Rightarrow> bytes option"
  videos :: "path \<Rightarrow> image list option"
  system_calls :: "(string \<times> int) list"
  clock :: nat


section \<open>Frame extraction\<close>

text \<open>
  \<^verbatim>\<open>VideoBackgroundRemover.extract_frames\<close>. The cap is \<^verbatim>\<open>max_frames\<close>, \<^verbatim>\<open>None\<close> or
  an integer. The loop reads a frame, stops when there is none or when
  \<^verbatim>\<open>max_frames and frame_count >= max_frames\<close>, and otherwise writes
  \<^verbatim>\<open>frames/frame_{frame_count:06d}.png\<close>. \<^verbatim>\<open>cv2.imwrite\<close> does not raise on a path it
  cannot write; it writes nothing. Logging and the progress bar (whose total is the
  only use of the clamped \<^verbatim>\<open>total_frames\<close>) have no effect on the results.
\<close>

definition cap_reached :: "int option \<Rightarrow> nat \<Rightarrow> bool" where
  "cap_reached max_frames frame_count =
     (case max_frames of
        None \<Rightarrow> False
      | Some m \<Rightarrow> m \<noteq> 0 \<and> m \<le> int frame_count)"

definition frame_file :: "path \<Rightarrow> nat \<Rightarrow> path" where
  "frame_file frames_dir i = os_path_join frames_dir (''frame_'' @ fmt_06d i @ ''.png'')"

definition imwrite :: "env \<Rightarrow> world \<Rightarrow> path \<Rightarrow> bytes \<Rightarrow> world" where
  "imwrite env w p frame =
     (if can_write env p then w\<lparr>files := (files w)(p \<mapsto> frame)\<rparr> else w)"

fun extract_loop ::
  "env \<Rightarrow> int option \<Rightarrow> path \<Rightarrow> bytes list \<Rightarrow> nat \<Rightarrow> path list \<Rightarrow> world
     \<Rightarrow> nat \<times> path list \<times> world" where
  "extract_loop env max_frames frames_dir [] frame_count extracted w =
     (frame_count, extracted, w)"
| "extract_loop env max_frames frames_dir (frame # rest) frame_count extracted w =
     (if cap_reached max_frames frame_count then (frame_count, extracted, w)
      else
        let frame_path = frame_file frames_dir frame_count
        in extract_loop env max_frames frames_dir rest (frame_count + 1)
             (extracted @ [frame_path]) (imwrite env w frame_path frame))"

definition extract_frames ::
  "env \<Rightarrow> world \<Rightarrow> path \<Rightarrow> path \<Rightarrow> int option
     \<Rightarrow> (exn + nat \<times> rat \<times> nat \<times> nat \<times> path list) \<times> world" where
  "extract_frames env w video_path output_dir max_frames =
     (let frames_dir = os_path_join output_dir ''frames'' in
      if \<not> can_makedirs env frames_dir then (Inl (OSError frames_dir), w)
      else
        case capture env video_path of
          None \<Rightarrow> (Inl (ValueError (''cannot open video file: '' @ video_path)), w)
        | Some cap \<Rightarrow>
            (case extract_loop env max_frames frames_dir (v_frames cap) 0 [] w of
               (frame_count, extracted_frames, w') \<Rightarrow>
                 (Inr (frame_count, v_fps cap, v_width cap, v_height cap, extracted_frames),
                  w')))"


section \<open>Background removal, frame by frame\<close>

text \<open>
  \<^verbatim>\<open>remove_background_from_frame\<close> reads the frame file, calls rembg and writes the
  result; its \<^verbatim>\<open>except\<close> clause logs and re-raises, so every failure (the file
  cannot be opened, the model raises, the output cannot be opened) leaves as the same
  exception.
\<close>

definition remove_background_from_frame ::
  "env \<Rightarrow> world \<Rightarrow> path \<Rightarrow> path \<Rightarrow> (exn + unit) \<times> world" where
  "remove_background_from_frame env w frame_path output_path =
     (case files w frame_path of
        None \<Rightarrow> (Inl (OSError frame_path), w)
      | Some input_data \<Rightarrow>
          (case segment env input_data of
             Inl e \<Rightarrow> (Inl e, w)
           | Inr output_data \<Rightarrow>
               if can_write env output_path
               then (Inr (), w\<lparr>files := (files w)(output_path \<mapsto> output_data)\<rparr>)
               else (Inl (OSError output_path), w)))"

text \<open>
  \<^verbatim>\<open>process_frames\<close>: \<open>process_one\<close> is the body of the \<^verbatim>\<open>for i, frame_path in
  enumerate(frames_list)\<close> loop, \<open>process_loop\<close> the loop from index \<open>i\<close> on. An
  exception of the body leaves the loop and the function.
\<close>

definition processed_file :: "path \<Rightarrow> nat \<Rightarrow> path" where
  "processed_file processed_dir i =
     os_path_join processed_dir (''processed_frame_'' @ fmt_06d i @ ''.png'')"

definition process_one ::
  "env \<Rightarrow> path \<Rightarrow> nat \<Rightarrow> path \<Rightarrow> path list \<Rightarrow> world \<Rightarrow> (exn + path list) \<times> world" where
  "process_one env processed_dir i frame_path processed_frames w =
     (let output_path = processed_file processed_dir i in
      case remove_background_from_frame env w frame_path output_path of
        (Inl e, w') \<Rightarrow> (Inl e, w')
      | (Inr _, w') \<Rightarrow> (Inr (processed_frames @ [output_path]), w'))"

fun process_loop ::
  "env \<Rightarrow> path \<Rightarrow> nat \<Rightarrow> path list \<Rightarrow> path list \<Rightarrow> world \<Rightarrow> (exn + path list) \<times> world" where
  "process_loop env processed_dir i [] processed_frames w = (Inr processed_frames, w)"
| "process_loop env processed_dir i (frame_path # rest) processed_frames w =
     (case process_one env processed_dir i frame_path processed_frames w of
        (Inl e, w') \<Rightarrow> (Inl e, w')
      | (Inr processed_frames', w') \<Rightarrow>
          process_loop env processed_dir (i + 1) rest processed_frames' w')"

definition process_frames ::
  "env \<Rightarrow> world \<Rightarrow> path list \<Rightarrow> path \<Rightarrow> (exn + path list) \<times> world" where
  "process_frames env w frames_list output_dir =
     (let processed_dir = os_path_join output_dir ''processed_frames'' in
      if \<not> can_makedirs env processed_dir then (Inl (OSError processed_dir), w)
      else process_loop env processed_dir 0 frames_list [] w)"


section \<open>Binary64 arithmetic and the blend over white\<close>

text \<open>
  \<^verbatim>\<open>create_transparent_video\<close> computes \<^verbatim>\<open>alpha = img[:, :, 3] / 255.0\<close> and, for each
  of the three colour channels, \<^verbatim>\<open>img[:, :, c] * alpha + 255 * (1 - alpha)\<close>. numpy
  evaluates both in float64, that is IEEE 754 binary64: every operation returns the
  exact result rounded to 53 significant bits, to nearest, ties to even. The
  assignment into the \<^verbatim>\<open>uint8\<close> array truncates the value towards zero.

  \<open>round64\<close> is that rounding on the rationals. \<open>expo v\<close> is the exponent \<open>e\<close> with
  \<open>2^e \<le> v < 2^(e+1)\<close> of a positive \<open>v\<close>, so that \<open>2^(e - 52)\<close> is the spacing of the
  binary64 numbers around \<open>v\<close>. The exponent range is taken as unbounded: the values
  that occur here lie between \<open>1/255\<close> and \<open>512\<close>, far from overflow and from the
  subnormal numbers.
\<close>

definition expo :: "rat \<Rightarrow> int" where
  "expo v =
     (if 1 \<le> v then int (floorlog 2 (nat \<lfloor>v\<rfloor>)) - 1
      else - int (floorlog 2 (nat (\<lceil>1 / v\<rceil> - 1))))"

definition rne :: "rat \<Rightarrow> int" where
  "rne q =
     (let f = \<lfloor>q\<rfloor>; r = q - of_int f
      in if r < 1 / 2 then f
         else if 1 / 2 < r then f + 1
         else if even f then f else f + 1)"

definition round64 :: "rat \<Rightarrow> rat" where
  "round64 v =
     (if v = 0 then 0
      else
        let m = \<bar>v\<bar>; ulp = 2 powi (expo m - 52)
        in sgn v * of_int (rne (m / ulp)) * ulp)"

text \<open>The cast of a float64 to \<^verbatim>\<open>uint8\<close>: truncation towards zero, modulo 256.\<close>

definition uint8_of :: "rat \<Rightarrow> nat" where
  "uint8_of v = nat ((if 0 \<le> v then \<lfloor>v\<rfloor> else \<lceil>v\<rceil>) mod 256)"

text \<open>The value stored for a channel value \<open>c\<close> of a pixel with alpha \<open>a\<close>.\<close>

definition blend64 :: "nat \<Rightarrow> nat \<Rightarrow> nat" where
  "blend64 c a =
     (let alpha = round64 (of_nat a / 255)
      in uint8_of (round64 (round64 (of_nat c * alpha) + round64 (255 * round64 (1 - alpha)))))"


section \<open>Assembling the outputs\<close>

text \<open>
  \<^verbatim>\<open>create_transparent_video\<close>. A frame that \<^verbatim>\<open>cv2.imread\<close> cannot read is skipped
  (\<^verbatim>\<open>continue\<close>). \<^verbatim>\<open>img.shape[2]\<close> raises for an image of fewer than three dimensions.
  A four-channel image is blended over white channel by channel (\<open>blend64\<close>, with
  the alpha of the pixel, its fourth channel) and cut to three channels. A frame of
  another size is resized.
\<close>

definition imread :: "env \<Rightarrow> world \<Rightarrow> path \<Rightarrow> image option" where
  "imread env w p = (case files w p of None \<Rightarrow> None | Some d \<Rightarrow> imdecode env d)"

fun flatten_pixels :: "(nat \<Rightarrow> nat \<Rightarrow> nat) \<Rightarrow> nat list \<Rightarrow> nat list" where
  "flatten_pixels f (c0 # c1 # c2 # a # rest) = f c0 a # f c1 a # f c2 a # flatten_pixels f rest"
| "flatten_pixels f _ = []"

definition flatten_white :: "image \<Rightarrow> image" where
  "flatten_white img =
     \<lparr>shape = take 2 (shape img) @ [3], pixels = flatten_pixels blend64 (pixels img)\<rparr>"

definition video_frame :: "env \<Rightarrow> nat \<Rightarrow> nat \<Rightarrow> image \<Rightarrow> exn + image" where
  "video_frame env width height img =
     (if length (shape img) < 3 then Inl (IndexError ''tuple index out of range'')
      else
        let img1 = (if shape img ! 2 = 4 then flatten_white img else img)
        in if take 2 (shape img1) \<noteq> [height, width] then resize env img1 width height
           else Inr img1)"

fun write_frames ::
  "env \<Rightarrow> world \<Rightarrow> nat \<Rightarrow> nat \<Rightarrow> path list \<Rightarrow> image list \<Rightarrow> (exn + unit) \<times> image list" where
  "write_frames env w width height [] written = (Inr (), written)"
| "write_frames env w width height (frame_path # rest) written =
     (case imread env w frame_path of
        None \<Rightarrow> write_frames env w width height rest written
      | Some img \<Rightarrow>
          (case video_frame env width height img of
             Inl e \<Rightarrow> (Inl e, written)
           | Inr frame \<Rightarrow> write_frames env w width height rest (written @ [frame])))"

definition create_transparent_video ::
  "env \<Rightarrow> world \<Rightarrow> path list \<Rightarrow> path \<Rightarrow> rat \<Rightarrow> nat \<Rightarrow> nat \<Rightarrow> (exn + unit) \<times> world" where
  "create_transparent_video env w processed_frames output_path fps width height =
     (if \<not> writer_opens env output_path
      then (Inl (ValueError ''cannot create video file''), w)
      else
        case write_frames env w width height processed_frames [] of
          (r, written) \<Rightarrow> (r, w\<lparr>videos := (videos w)(output_path \<mapsto> written)\<rparr>))"

text \<open>
  \<^verbatim>\<open>create_webm_with_transparency\<close> builds the ffmpeg command line from the directory
  of \<^verbatim>\<open>processed_frames[0]\<close> and runs it with \<^verbatim>\<open>os.system\<close>, whose exit status it
  drops; the world keeps the command and its status. The only exception it can raise
  is the \<^verbatim>\<open>IndexError\<close> of \<^verbatim>\<open>processed_frames[0]\<close> on an empty list.
\<close>

definition ffmpeg_cmd :: "env \<Rightarrow> rat \<Rightarrow> string \<Rightarrow> path \<Rightarrow> string" where
  "ffmpeg_cmd env fps frames_pattern output_path =
     ''ffmpeg -y -framerate '' @ str_float env fps @ '' -i '' @ [CHR 0x27] @ frames_pattern
       @ [CHR 0x27] @ '' -c:v libvpx-vp9 -pix_fmt yuva420p '' @ [CHR 0x27] @ output_path
       @ [CHR 0x27]"

definition create_webm_with_transparency ::
  "env \<Rightarrow> world \<Rightarrow> path list \<Rightarrow> path \<Rightarrow> rat \<Rightarrow> (exn + unit) \<times> world" where
  "create_webm_with_transparency env w processed_frames output_path fps =
     (case processed_frames of
        [] \<Rightarrow> (Inl (IndexError ''list index out of range''), w)
      | first # _ \<Rightarrow>
          let frames_pattern = os_path_join (os_path_dirname first) ''processed_frame_%06d.png'';
              cmd = ffmpeg_cmd env fps frames_pattern output_path
          in (Inr (), w\<lparr>system_calls := system_calls w @ [(cmd, system env cmd)]\<rparr>))"


section \<open>The pipeline of one video\<close>

text \<open>
  \<^verbatim>\<open>process_video\<close>. \<^verbatim>\<open>os.makedirs(output_dir)\<close> stands before the \<^verbatim>\<open>try\<close>; the
  \<^verbatim>\<open>except\<close> of the \<^verbatim>\<open>try\<close> logs and re-raises. An exception of the WebM step is
  caught by the inner \<^verbatim>\<open>try\<close>, which sets \<^verbatim>\<open>output_webm = None\<close>.
\<close>

definition webm_step ::
  "env \<Rightarrow> world \<Rightarrow> bool \<Rightarrow> path list \<Rightarrow> path \<Rightarrow> rat \<Rightarrow> path option \<times> world" where
  "webm_step env w create_webm processed_frames output_dir fps =
     (if create_webm then
        let output_webm = os_path_join output_dir ''output_transparent.webm'' in
        case create_webm_with_transparency env w processed_frames output_webm fps of
          (Inl e, w') \<Rightarrow> (None, w')
        | (Inr _, w') \<Rightarrow> (Some output_webm, w')
      else (None, w))"

definition process_video ::
  "env \<Rightarrow> world \<Rightarrow> path \<Rightarrow> path \<Rightarrow> int option \<Rightarrow> bool \<Rightarrow> (exn + video_result) \<times> world" where
  "process_video env w input_video output_dir max_frames create_webm =
     (if \<not> can_makedirs env output_dir then (Inl (OSError output_dir), w)
      else
        case extract_frames env w input_video output_dir max_frames of
          (Inl e, w1) \<Rightarrow> (Inl e, w1)
        | (Inr (frame_count, fps, width, height, frames_list), w1) \<Rightarrow>
            (case process_frames env w1 frames_list output_dir of
               (Inl e, w2) \<Rightarrow> (Inl e, w2)
             | (Inr processed_frames, w2) \<Rightarrow>
                 let output_mp4 = os_path_join output_dir ''output_transparent.mp4'' in
                 (case create_transparent_video env w2 processed_frames output_mp4 fps width height of
                    (Inl e, w3) \<Rightarrow> (Inl e, w3)
                  | (Inr _, w3) \<Rightarrow>
                      (case webm_step env w3 create_webm processed_frames output_dir fps of
                         (output_webm, w4) \<Rightarrow>
                           (Inr \<lparr>r_input_video = input_video,
                                 r_output_dir = output_dir,
                                 r_frame_count = frame_count,
                                 r_fps = fps,
                                 r_resolution = (width, height),
                                 r_output_mp4 = output_mp4,
                                 r_output_webm = output_webm,
                                 r_frames_dir = os_path_join output_dir ''frames'',
                                 r_processed_frames_dir =
                                   os_path_join output_dir ''processed_frames''\<rparr>,
                            w4)))))"


section \<open>The batch runner\<close>

text \<open>
  \<^verbatim>\<open>BatchVideoProcessor\<close>: the object holds the model name, the frame cap and the
  list \<^verbatim>\<open>self.results\<close>, empty after \<^verbatim>\<open>__init__\<close>.
\<close>

record processor =
  bp_model_name :: string
  bp_max_frames :: "int option"
  bp_results :: "job_result list"

definition init_processor :: "string \<Rightarrow> int option \<Rightarrow> processor" where
  "init_processor model_name max_frames =
     \<lparr>bp_model_name = model_name, bp_max_frames = max_frames, bp_results = []\<rparr>"

text \<open>
  \<^verbatim>\<open>find_video_files\<close>: one recursive glob \<^verbatim>\<open>**/*{ext}\<close> per extension, then
  \<^verbatim>\<open>sorted(list(set(video_files)))\<close>. Python compares strings lexicographically by
  code point, which is the order of \<open>char list\<close>.
\<close>

definition default_extensions :: "string list" where
  "default_extensions = [''.mp4'', ''.avi'', ''.mov'', ''.mkv'', ''.wmv'', ''.flv'', ''.webm'']"

definition globbed :: "env \<Rightarrow> path \<Rightarrow> string list \<Rightarrow> path list" where
  "globbed env input_dir extensions =
     concat (map (\<lambda>ext. glob env input_dir (''**/*'' @ ext)) extensions)"

definition find_video_files :: "env \<Rightarrow> path \<Rightarrow> string list option \<Rightarrow> path list" where
  "find_video_files env input_dir extensions =
     (let exts = (case extensions of None \<Rightarrow> default_extensions | Some xs \<Rightarrow> xs) in
      if \<not> path_exists env input_dir then []
      else sorted_list_of_set (set (globbed env input_dir exts)))"

text \<open>\<^verbatim>\<open>time.time()\<close>: the next reading of the clock.\<close>

definition time_time :: "env \<Rightarrow> world \<Rightarrow> rat \<times> world" where
  "time_time env w = (now env (clock w), w\<lparr>clock := clock w + 1\<rparr>)"

text \<open>
  \<^verbatim>\<open>process_single_video\<close>: the call of \<^verbatim>\<open>process_video\<close> stands in a \<^verbatim>\<open>try\<close> whose
  \<^verbatim>\<open>except Exception\<close> builds the failure dictionary, so the function returns a
  dictionary in either case.
\<close>

definition process_single_video ::
  "env \<Rightarrow> world \<Rightarrow> processor \<Rightarrow> path \<Rightarrow> path \<Rightarrow> bool \<Rightarrow> job_result \<times> world" where
  "process_single_video env w self video_path output_base_dir create_webm =
     (let video_name = path_stem video_path;
          output_dir = os_path_join output_base_dir video_name
      in case time_time env w of
        (start_time, w0) \<Rightarrow>
          (case process_video env w0 video_path output_dir (bp_max_frames self) create_webm of
             (Inr result, w1) \<Rightarrow>
               (case time_time env w1 of
                  (end_time, w2) \<Rightarrow>
                    (\<lparr>j_status = ''success'',
                      j_error = None,
                      j_processing_time = end_time - start_time,
                      j_video_name = video_name,
                      j_input_video = r_input_video result,
                      j_output_dir = r_output_dir result,
                      j_video = Some result\<rparr>, w2))
           | (Inl e, w1) \<Rightarrow>
               (case time_time env w1 of
                  (end_time, w2) \<Rightarrow>
                    (\<lparr>j_status = ''failed'',
                      j_error = Some (exn_message e),
                      j_processing_time = end_time - start_time,
                      j_video_name = video_name,
                      j_input_video = video_path,
                      j_output_dir = output_dir,
                      j_video = None\<rparr>, w2))))"

text \<open>
  \<^verbatim>\<open>save_report\<close> writes \<^verbatim>\<open>batch_processing_report.json\<close>; a failure to write is caught
  and logged.
\<close>

definition save_report :: "env \<Rightarrow> world \<Rightarrow> processor \<Rightarrow> path \<Rightarrow> batch_stats \<Rightarrow> world" where
  "save_report env w self output_dir stats =
     (let report_path = os_path_join output_dir ''batch_processing_report.json'' in
      if can_write env report_path
      then w\<lparr>files := (files w)(report_path \<mapsto>
                json_report env (bp_model_name self) (bp_max_frames self) stats)\<rparr>
      else w)"

text \<open>
  \<^verbatim>\<open>process_batch\<close>: \<open>batch_loop\<close> is the \<^verbatim>\<open>for\<close> loop, which appends every result to
  \<^verbatim>\<open>self.results\<close>. The statistics count over \<^verbatim>\<open>self.results\<close>:
  \<^verbatim>\<open>success_count = sum(1 for r in self.results if r['status'] == 'success')\<close> and
  \<^verbatim>\<open>failed_count = len(self.results) - success_count\<close> (never negative).
\<close>

fun batch_loop ::
  "env \<Rightarrow> path list \<Rightarrow> path \<Rightarrow> bool \<Rightarrow> processor \<Rightarrow> world \<Rightarrow> processor \<times> world" where
  "batch_loop env [] output_dir create_webm self w = (self, w)"
| "batch_loop env (video_path # rest) output_dir create_webm self w =
     (case process_single_video env w self video_path output_dir create_webm of
        (result, w') \<Rightarrow>
          batch_loop env rest output_dir create_webm
            (self\<lparr>bp_results := bp_results self @ [result]\<rparr>) w')"

definition success_count :: "job_result list \<Rightarrow> nat" where
  "success_count rs = length (filter (\<lambda>r. j_status r = ''success'') rs)"

definition process_batch ::
  "env \<Rightarrow> world \<Rightarrow> processor \<Rightarrow> path \<Rightarrow> path \<Rightarrow> bool \<Rightarrow> string list option
     \<Rightarrow> (exn + batch_stats) \<times> processor \<times> world" where
  "process_batch env w self input_dir output_dir create_webm extensions =
     (if \<not> can_makedirs env output_dir then (Inl (OSError output_dir), self, w)
      else
        let video_files = find_video_files env input_dir extensions in
        if video_files = []
        then (Inr \<lparr>s_total = 0, s_success = 0, s_failed = 0, s_total_time = None,
                   s_results = []\<rparr>, self, w)
        else
          case time_time env w of
            (total_start_time, w0) \<Rightarrow>
              (case batch_loop env video_files output_dir create_webm self w0 of
                 (self', w1) \<Rightarrow>
                   (case time_time env w1 of
                      (total_end_time, w2) \<Rightarrow>
                        let stats =
                          \<lparr>s_total = length video_files,
                           s_success = success_count (bp_results self'),
                           s_failed = length (bp_results self') - success_count (bp_results self'),
                           s_total_time = Some (total_end_time - total_start_time),
                           s_results = bp_results self'\<rparr>
                        in (Inr stats, self', save_report env w2 self' output_dir stats))))"


section \<open>The stop button of the graphical interface\<close>

text \<open>
  \<^verbatim>\<open>gui_app.py\<close>: \<^verbatim>\<open>start_processing\<close> sets \<^verbatim>\<open>self.processing = True\<close> and starts the
  worker thread; \<^verbatim>\<open>stop_processing\<close> sets the flag to \<^verbatim>\<open>False\<close> and shows a text;
  the worker, \<^verbatim>\<open>process_video_thread\<close>, calls \<^verbatim>\<open>process_video\<close> and never reads the
  flag. The two threads are interleaved at the granularity of one iteration of the
  segmentation loop: an event is either a press of the stop button or one more
  iteration of the loop of \<^verbatim>\<open>process_frames\<close> (\<open>process_one\<close>).
\<close>

record gui =
  processing :: bool
  progress_var :: string

definition stop_processing :: "gui \<Rightarrow> gui" where
  "stop_processing g = g\<lparr>processing := False, progress_var := ''stopping...''\<rparr>"

datatype event = Stop_pressed | Next_frame

record worker =
  k_index :: nat
  k_pending :: "path list"
  k_processed :: "path list"
  k_raised :: "exn option"

fun run_events ::
  "env \<Rightarrow> path \<Rightarrow> event list \<Rightarrow> gui \<times> worker \<times> world \<Rightarrow> gui \<times> worker \<times> world" where
  "run_events env processed_dir [] s = s"
| "run_events env processed_dir (Stop_pressed # evs) (g, k, w) =
     run_events env processed_dir evs (stop_processing g, k, w)"
| "run_events env processed_dir (Next_frame # evs) (g, k, w) =
     (case (k_raised k, k_pending k) of
        (None, frame_path # rest) \<Rightarrow>
          (case process_one env processed_dir (k_index k) frame_path (k_processed k) w of
             (Inl e, w') \<Rightarrow>
               run_events env processed_dir evs (g, k\<lparr>k_raised := Some e\<rparr>, w')
           | (Inr processed_frames', w') \<Rightarrow>
               run_events env processed_dir evs
                 (g, k\<lparr>k_index := k_index k + 1, k_pending := rest,
                        k_processed := processed_frames'\<rparr>, w'))
      | _ \<Rightarrow> run_events env processed_dir evs (g, k, w))"


section \<open>Closed forms used in the proofs\<close>

text \<open>
  The number of frames the extraction loop still writes when it stands at frame
  \<open>n\<close> with \<open>len\<close> frames left to read: all of them without a cap (a cap of 0 counts
  as none), otherwise at most what is missing to the cap.
\<close>

definition kept :: "int option \<Rightarrow> nat \<Rightarrow> nat \<Rightarrow> nat" where
  "kept max_frames n len =
     (case max_frames of
        None \<Rightarrow> len
      | Some m \<Rightarrow> if m = 0 then len else min len (nat m - n))"


text \<open>The number of entries of a result list whose status is \<^verbatim>\<open>failed\<close>.\<close>

definition failed_count :: "job_result list \<Rightarrow> nat" where
  "failed_count rs = length (filter (\<lambda>r. j_status r = ''failed'') rs)"


text \<open>
  The results of \<^verbatim>\<open>process_single_video\<close> on a list of files, in order, each in the
  world the previous one left.
\<close>

fun batch_entries ::
  "env \<Rightarrow> processor \<Rightarrow> path list \<Rightarrow> path \<Rightarrow> bool \<Rightarrow> world \<Rightarrow> job_result list" where
  "batch_entries env self [] output_dir create_webm w = []"
| "batch_entries env self (video_path # rest) output_dir create_webm w =
     (case process_single_video env w self video_path output_dir create_webm of
        (result, w') \<Rightarrow> result # batch_entries env self rest output_dir create_webm w')"


section \<open>Concrete environments\<close>

text \<open>
  A small world to run the definitions on: a directory \<^verbatim>\<open>in\<close> with three videos, of
  which \<^verbatim>\<open>b.mp4\<close> does not open; a video without frames; a video whose second frame
  the model rejects. The listing of \<^verbatim>\<open>in\<close> comes unsorted and with a repetition.
\<close>

definition demo_video :: video where
  "demo_video = \<lparr>v_fps = 25, v_frame_count = 2, v_width = 4, v_height = 2,
                  v_frames = [[1], [2]]\<rparr>"

definition empty_video :: video where
  "empty_video = \<lparr>v_fps = 25, v_frame_count = 0, v_width = 4, v_height = 2, v_frames = []\<rparr>"

definition bad_video :: video where
  "bad_video = \<lparr>v_fps = 25, v_frame_count = 3, v_width = 4, v_height = 2,
                 v_frames = [[1], [13], [3]]\<rparr>"

definition demo_capture :: "path \<Rightarrow> video option" where
  "demo_capture p =
     (if p = ''in/a.mp4'' \<or> p = ''in/c.mp4'' then Some demo_video
      else if p = ''empty.mp4'' then Some empty_video
      else if p = ''bad.mp4'' then Some bad_video
      else None)"

definition demo_segment :: "bytes \<Rightarrow> exn + bytes" where
  "demo_segment d = (if d = [13] then Inl (ExternalError ''bad frame'') else Inr (255 # d))"

definition demo_glob :: "path \<Rightarrow> string \<Rightarrow> path list" where
  "demo_glob d pat =
     (if d = ''in'' \<and> pat = ''**/*.mp4''
      then [''in/c.mp4'', ''in/a.mp4'', ''in/b.mp4'', ''in/a.mp4'']
      else [])"

definition demo_glob2 :: "path \<Rightarrow> string \<Rightarrow> path list" where
  "demo_glob2 d pat =
     (if d = ''in'' \<and> pat = ''**/*.mp4''
      then [''in/b.mp4'', ''in/c.mp4'', ''in/a.mp4'']
      else [])"

definition demo_env :: env where
  "demo_env =
     \<lparr>capture = demo_capture,
      can_makedirs = (\<lambda>p. True),
      can_write = (\<lambda>p. True),
      segment = demo_segment,
      imdecode = (\<lambda>d. None),
      writer_opens = (\<lambda>p. True),
      resize = (\<lambda>img width height. Inr img),
      str_float = (\<lambda>x. ''25.0''),
      system = (\<lambda>cmd. 0),
      now = (\<lambda>n. of_nat n),
      path_exists = (\<lambda>p. True),
      glob = demo_glob,
      json_report = (\<lambda>model cap stats. [])\<rparr>"

definition demo_env2 :: env where
  "demo_env2 = demo_env\<lparr>glob := demo_glob2\<rparr>"

definition no_ffmpeg_env :: env where
  "no_ffmpeg_env = demo_env\<lparr>system := (\<lambda>cmd. 32512)\<rparr>"

definition demo_world :: world where
  "demo_world = \<lparr>files = (\<lambda>p. None), videos = (\<lambda>p. None), system_calls = [], clock = 0\<rparr>"

definition demo_gui :: gui where
  "demo_gui = \<lparr>processing = True, progress_var = ''processing...''\<rparr>"

definition demo_worker :: worker where
  "demo_worker = \<lparr>k_index = 0, k_pending = [''f0'', ''f1'', ''f2''], k_processed = [],
                   k_raised = None\<rparr>"

definition three_frames_world :: world where
  "three_frames_world =
     \<lparr>files = (\<lambda>p. if p = ''f0'' then Some [1] else if p = ''f1'' then Some [2]
                    else if p = ''f2'' then Some [3] else None),
      videos = (\<lambda>p. None), system_calls = [], clock = 0\<rparr>"




section \<open>Frame extraction and the frame cap\<close>

lemma extract_loop_count:
  "fst (extract_loop env mf d fs n acc w) = n + kept mf n (length fs)"
proof (induction fs arbitrary: n acc w)
  case Nil
  show ?case by (simp add: kept_def split: option.splits)
next
  case (Cons f fs)
  show ?case
  proof (cases "cap_reached mf n")
    case True
    then show ?thesis by (auto simp: cap_reached_def kept_def split: option.splits)
  next
    case False
    then have "kept mf n (Suc (length fs)) = Suc (kept mf (Suc n) (length fs))"
      by (auto simp: cap_reached_def kept_def split: option.splits)
    with False show ?thesis by (simp add: Cons.IH Let_def)
  qed
qed

lemma extract_loop_paths:
  "fst (snd (extract_loop env mf d fs n acc w)) =
     acc @ map (frame_file d) [n ..< n + kept mf n (length fs)]"
proof (induction fs arbitrary: n acc w)
  case Nil
  show ?case by (simp add: kept_def split: option.splits)
next
  case (Cons f fs)
  show ?case
  proof (cases "cap_reached mf n")
    case True
    then show ?thesis by (auto simp: cap_reached_def kept_def split: option.splits)
  next
    case False
    then have k: "kept mf n (Suc (length fs)) = Suc (kept mf (Suc n) (length fs))"
      by (auto simp: cap_reached_def kept_def split: option.splits)
    have u: "[n ..< Suc (n + k)] = n # [Suc n ..< Suc (n + k)]" for k
      by (rule upt_conv_Cons) simp
    from False show ?thesis by (simp add: Cons.IH Let_def k u del: upt_Suc)
  qed
qed

lemma extract_frames_value:
  assumes "can_makedirs env (os_path_join output_dir ''frames'')"
    and "capture env video_path = Some cap"
  shows "fst (extract_frames env w video_path output_dir mf) =
     Inr (kept mf 0 (length (v_frames cap)), v_fps cap, v_width cap, v_height cap,
          map (frame_file (os_path_join output_dir ''frames''))
            [0 ..< kept mf 0 (length (v_frames cap))])"
proof -
  let ?d = "os_path_join output_dir ''frames''"
  obtain a b c where e: "extract_loop env mf ?d (v_frames cap) 0 [] w = (a, b, c)"
    by (cases "extract_loop env mf ?d (v_frames cap) 0 [] w") auto
  from extract_loop_count[of env mf ?d "v_frames cap" 0 "[]" w]
       extract_loop_paths[of env mf ?d "v_frames cap" 0 "[]" w] e
  have "a = kept mf 0 (length (v_frames cap))"
       "b = map (frame_file ?d) [0 ..< kept mf 0 (length (v_frames cap))]"
    by simp_all
  with assms e show ?thesis by (simp add: extract_frames_def Let_def)
qed

text \<open>
  C3. The claim reads: for a video with \<open>N\<close> decodable frames and every set cap \<open>M\<close>,
  also 0, extraction stops after exactly \<open>M\<close> frames when \<open>M < N\<close> and runs to the end
  when \<open>M \<ge> N\<close>. The code tests \<^verbatim>\<open>max_frames and ...\<close>, so a cap of 0 is no cap: with
  two frames and \<open>M = 0\<close> both frames are extracted and the count is 2, not 0.
\<close>

theorem extract_frames_zero_cap_counterexample:
  "length (v_frames demo_video) = 2
   \<and> capture demo_env ''in/a.mp4'' = Some demo_video
   \<and> fst (extract_frames demo_env demo_world ''in/a.mp4'' ''out'' (Some 0)) =
       Inr (2, 25, 4, 2, [''out/frames/frame_000000.png'', ''out/frames/frame_000001.png''])"
  by (simp add: extract_frames_def demo_env_def demo_capture_def demo_video_def demo_world_def
        os_path_join_def cap_reached_def frame_file_def imwrite_def fmt_06d_def
        str_nat.simps digit_char_def Let_def eval_nat_numeral)

text \<open>
  C3, amended. For a container that opens with \<open>N\<close> decodable frames and every cap
  \<open>M \<ge> 1\<close>: if \<open>M < N\<close> exactly the frames \<open>0, ..., M - 1\<close> are extracted and the
  reported count is \<open>M\<close>; if \<open>M \<ge> N\<close> all \<open>N\<close> frames are extracted without error and
  the count is \<open>N\<close>. A cap of 0 is treated as no cap: all \<open>N\<close> frames, count \<open>N\<close>.
\<close>

theorem extract_frames_cap:
  assumes "can_makedirs env (os_path_join output_dir ''frames'')"
    and "capture env video_path = Some cap"
    and "N = length (v_frames cap)"
    and "fd = os_path_join output_dir ''frames''"
  shows "(1 \<le> M \<and> M < int N \<longrightarrow>
            fst (extract_frames env w video_path output_dir (Some M)) =
              Inr (nat M, v_fps cap, v_width cap, v_height cap, map (frame_file fd) [0 ..< nat M]))
       \<and> (1 \<le> M \<and> int N \<le> M \<longrightarrow>
            fst (extract_frames env w video_path output_dir (Some M)) =
              Inr (N, v_fps cap, v_width cap, v_height cap, map (frame_file fd) [0 ..< N]))
       \<and> fst (extract_frames env w video_path output_dir (Some 0)) =
              Inr (N, v_fps cap, v_width cap, v_height cap, map (frame_file fd) [0 ..< N])"
proof -
  have a: "1 \<le> M \<Longrightarrow> M < int N \<Longrightarrow> kept (Some M) 0 N = nat M"
    by (auto simp: kept_def)
  have b: "1 \<le> M \<Longrightarrow> int N \<le> M \<Longrightarrow> kept (Some M) 0 N = N"
    by (auto simp: kept_def)
  have c: "kept (Some 0) 0 N = N" by (simp add: kept_def)
  show ?thesis
    using a b c extract_frames_value[OF assms(1,2)] assms(3,4) by simp
qed

theorem extract_frames_cap_witness:
  "fst (extract_frames demo_env demo_world ''in/a.mp4'' ''out'' (Some 1)) =
     Inr (1, 25, 4, 2, [''out/frames/frame_000000.png''])
   \<and> fst (extract_frames demo_env demo_world ''in/a.mp4'' ''out'' (Some 5)) =
     Inr (2, 25, 4, 2, [''out/frames/frame_000000.png'', ''out/frames/frame_000001.png''])"
proof -
  have h1: "can_makedirs demo_env (os_path_join ''out'' ''frames'')"
    by (simp add: demo_env_def)
  have h2: "capture demo_env ''in/a.mp4'' = Some demo_video"
    by (simp add: demo_env_def demo_capture_def)
  have h3: "(2::nat) = length (v_frames demo_video)" by (simp add: demo_video_def)
  have h4: "''out/frames'' = os_path_join ''out'' ''frames''" by (simp add: os_path_join_def)
  have f0: "frame_file ''out/frames'' 0 = ''out/frames/frame_000000.png''"
    by (simp add: frame_file_def os_path_join_def fmt_06d_def str_nat.simps digit_char_def
          eval_nat_numeral)
  have f1: "frame_file ''out/frames'' (Suc 0) = ''out/frames/frame_000001.png''"
    by (simp add: frame_file_def os_path_join_def fmt_06d_def str_nat.simps digit_char_def
          eval_nat_numeral)
  have u2: "[0..<2] = [0, Suc 0]" by (simp add: upt_conv_Cons)
  from extract_frames_cap[OF h1 h2 h3 h4, of 1 demo_world]
       extract_frames_cap[OF h1 h2 h3 h4, of 5 demo_world]
  show ?thesis by (simp add: demo_video_def f0 f1 u2)
qed

section \<open>Frame names are pairwise different\<close>

lemma digit_val_digit_char: "d < 10 \<Longrightarrow> digit_val (digit_char d) = d"
proof -
  assume "d < 10"
  then have "d = 0 \<or> d = 1 \<or> d = 2 \<or> d = 3 \<or> d = 4 \<or> d = 5 \<or> d = 6
    \<or> d = 7 \<or> d = 8 \<or> d = 9"
    by arith
  then show ?thesis
    by (elim disjE) (simp_all add: digit_val_def digit_char_def)
qed

lemma nat_of_digits_snoc: "nat_of_digits (s @ [c]) = 10 * nat_of_digits s + digit_val c"
  by (simp add: nat_of_digits_def)

lemma nat_of_digits_str_nat: "nat_of_digits (str_nat n) = n"
proof (induction n rule: str_nat.induct)
  case (1 n)
  show ?case
  proof (cases "n < 10")
    case True
    then show ?thesis
      by (subst str_nat.simps) (simp add: nat_of_digits_def digit_val_digit_char)
  next
    case False
    then have "nat_of_digits (str_nat n) = 10 * (n div 10) + n mod 10"
      by (subst str_nat.simps) (simp add: nat_of_digits_snoc "1.IH" digit_val_digit_char)
    then show ?thesis by simp
  qed
qed

lemma nat_of_digits_zeros: "nat_of_digits (replicate k CHR ''0'' @ s) = nat_of_digits s"
proof -
  have "foldl (\<lambda>acc c. 10 * acc + digit_val c) 0 (replicate k CHR ''0'') = 0"
    by (induction k) (simp_all add: digit_val_def)
  then show ?thesis by (simp add: nat_of_digits_def)
qed

lemma nat_of_digits_fmt_06d: "nat_of_digits (fmt_06d i) = i"
  by (simp add: fmt_06d_def nat_of_digits_zeros nat_of_digits_str_nat)

lemma fmt_06d_inj: "fmt_06d i = fmt_06d j \<Longrightarrow> i = j"
  by (metis nat_of_digits_fmt_06d)

lemma os_path_join_name:
  "os_path_join d (c # cs) = (if c = CHR ''/'' then c # cs else os_path_join d [] @ c # cs)"
  by (simp add: os_path_join_def)

lemma processed_file_inj: "processed_file d i = processed_file d j \<Longrightarrow> i = j"
  by (simp add: processed_file_def os_path_join_name fmt_06d_inj)

lemma frame_file_inj: "frame_file d i = frame_file d j \<Longrightarrow> i = j"
  by (simp add: frame_file_def os_path_join_name fmt_06d_inj)

lemma frame_file_not_processed_file:
  "frame_file (os_path_join out ''frames'') i \<noteq>
   processed_file (os_path_join out ''processed_frames'') k"
proof -
  have a: "os_path_join out ''frames'' = os_path_join out [] @ ''frames''"
    by (simp add: os_path_join_def)
  have b: "os_path_join out ''processed_frames'' = os_path_join out [] @ ''processed_frames''"
    by (simp add: os_path_join_def)
  have c: "os_path_join (p @ ''frames'') [] = p @ ''frames/''" for p
    by (simp add: os_path_join_def)
  have d: "os_path_join (p @ ''processed_frames'') [] = p @ ''processed_frames/''" for p
    by (simp add: os_path_join_def)
  show ?thesis
    by (simp add: frame_file_def processed_file_def os_path_join_name a b c d)
qed

section \<open>The segmentation loop\<close>

lemma remove_background_from_frame_cases:
  assumes "remove_background_from_frame env w frame_path output_path = (r, w')"
  shows "(\<exists>e. r = Inl e \<and> w' = w)
       \<or> (\<exists>input_data output_data.
             r = Inr () \<and> files w frame_path = Some input_data
             \<and> segment env input_data = Inr output_data \<and> can_write env output_path
             \<and> w' = w\<lparr>files := (files w)(output_path \<mapsto> output_data)\<rparr>)"
  using assms
  by (auto simp: remove_background_from_frame_def split: option.splits sum.splits if_splits)

lemma process_one_Inl:
  "process_one env d i frame_path acc w = (Inl e, w') \<longleftrightarrow>
     remove_background_from_frame env w frame_path (processed_file d i) = (Inl e, w')"
  by (auto simp: process_one_def Let_def split: prod.splits sum.splits)

lemma process_one_Inr:
  "process_one env d i frame_path acc w = (Inr acc', w') \<longleftrightarrow>
     acc' = acc @ [processed_file d i]
     \<and> remove_background_from_frame env w frame_path (processed_file d i) = (Inr (), w')"
  by (auto simp: process_one_def Let_def split: prod.splits sum.splits)

lemma process_loop_append:
  "process_loop env d i (xs @ ys) acc w =
     (case process_loop env d i xs acc w of
        (Inl e, w1) \<Rightarrow> (Inl e, w1)
      | (Inr acc1, w1) \<Rightarrow> process_loop env d (i + length xs) ys acc1 w1)"
proof (induction xs arbitrary: i acc w)
  case Nil
  show ?case by simp
next
  case (Cons x xs)
  show ?case
    by (simp add: Cons.IH split: prod.splits sum.splits)
qed

lemma process_loop_paths:
  "process_loop env d i fs acc w = (Inr ps, w') \<Longrightarrow>
     ps = acc @ map (processed_file d) [i ..< i + length fs]"
proof (induction fs arbitrary: i acc w)
  case Nil
  then show ?case by simp
next
  case (Cons f fs)
  from Cons.prems obtain acc1 w1 where
    one: "process_one env d i f acc w = (Inr acc1, w1)"
    and rest: "process_loop env d (Suc i) fs acc1 w1 = (Inr ps, w')"
    by (auto split: prod.splits sum.splits)
  have u: "[i ..< Suc (i + length fs)] = i # [Suc i ..< Suc (i + length fs)]"
    by (rule upt_conv_Cons) simp
  from one have "acc1 = acc @ [processed_file d i]" by (simp add: process_one_Inr)
  with Cons.IH[OF rest] show ?case by (simp add: u del: upt_Suc)
qed

lemma process_loop_files:
  assumes "process_loop env d i fs acc w = (r, w')"
    and "\<And>k. i \<le> k \<Longrightarrow> k < i + length fs \<Longrightarrow> p \<noteq> processed_file d k"
  shows "files w' p = files w p"
  using assms
proof (induction fs arbitrary: i acc w)
  case Nil
  then show ?case by simp
next
  case (Cons f fs)
  obtain r1 w1 where one: "process_one env d i f acc w = (r1, w1)"
    by (cases "process_one env d i f acc w") auto
  have p: "p \<noteq> processed_file d i" using Cons.prems(2)[of i] by simp
  obtain r0 where "remove_background_from_frame env w f (processed_file d i) = (r0, w1)"
    using one by (auto simp: process_one_def Let_def split: prod.splits sum.splits)
  from remove_background_from_frame_cases[OF this] p
  have step: "files w1 p = files w p" by auto
  show ?case
  proof (cases r1)
    case (Inl e)
    with one Cons.prems(1) have "w' = w1" by simp
    with step show ?thesis by simp
  next
    case (Inr acc1)
    with one Cons.prems(1) have rest: "process_loop env d (Suc i) fs acc1 w1 = (r, w')"
      by simp
    have "files w' p = files w1 p"
      by (rule Cons.IH[OF rest]) (use Cons.prems(2) in simp)
    with step show ?thesis by simp
  qed
qed

lemma extract_loop_files:
  assumes "\<And>k. p \<noteq> frame_file d k"
  shows "files (snd (snd (extract_loop env mf d fs n acc w))) p = files w p"
proof (induction fs arbitrary: n acc w)
  case Nil
  show ?case by simp
next
  case (Cons f fs)
  have "files (imwrite env w (frame_file d n) f) p = files w p"
    using assms[of n] by (simp add: imwrite_def)
  then show ?case by (simp add: Cons.IH Let_def)
qed

lemma extract_frames_files:
  assumes "extract_frames env w video_path output_dir mf = (r, w')"
  shows "files w' (processed_file (os_path_join output_dir ''processed_frames'') k) =
         files w (processed_file (os_path_join output_dir ''processed_frames'') k)"
proof -
  let ?p = "processed_file (os_path_join output_dir ''processed_frames'') k"
  let ?d = "os_path_join output_dir ''frames''"
  have ne: "?p \<noteq> frame_file ?d i" for i
    using frame_file_not_processed_file[of output_dir i k] by simp
  have key: "files (snd (snd (extract_loop env mf ?d fs 0 [] w))) ?p = files w ?p" for fs
    by (rule extract_loop_files) (rule ne)
  show ?thesis
  proof (cases "can_makedirs env ?d")
    case False
    with assms show ?thesis by (simp add: extract_frames_def Let_def)
  next
    case True
    show ?thesis
    proof (cases "capture env video_path")
      case None
      with True assms show ?thesis by (simp add: extract_frames_def Let_def)
    next
      case (Some cap)
      with True assms have "w' = snd (snd (extract_loop env mf ?d (v_frames cap) 0 [] w))"
        by (auto simp: extract_frames_def Let_def split: prod.splits)
      with key[of "v_frames cap"] show ?thesis by simp
    qed
  qed
qed

text \<open>
  C1. If the frames before index \<open>j\<close> are processed and
  \<^verbatim>\<open>remove_background_from_frame\<close> raises \<open>e\<close> on the frame at index \<open>j\<close>, then
  \<^verbatim>\<open>process_frames\<close> raises \<open>e\<close>, no processed frame of index \<open>j\<close> or more is written
  (those files are what they were before the job), and \<^verbatim>\<open>process_video\<close> raises the
  same \<open>e\<close>: the job fails, the error is not skipped.
\<close>

theorem fail_fast:
  assumes mk: "can_makedirs env output_dir"
    and ext: "extract_frames env w0 input_video output_dir max_frames =
                (Inr (n, fps, width, height, frames), w)"
    and j: "j < length frames"
    and pre: "process_frames env w (take j frames) output_dir = (Inr ps, wj)"
    and fail: "remove_background_from_frame env wj (frames ! j) (processed_file pd j) =
                (Inl e, wj')"
    and pd: "pd = os_path_join output_dir ''processed_frames''"
  shows "process_frames env w frames output_dir = (Inl e, wj')
       \<and> (\<forall>k. j \<le> k \<longrightarrow> files wj' (processed_file pd k) = files w0 (processed_file pd k))
       \<and> process_video env w0 input_video output_dir max_frames create_webm = (Inl e, wj')"
proof -
  from pre have mkpd: "can_makedirs env pd"
    by (auto simp: process_frames_def pd Let_def split: if_splits)
  with pre have loop_pre: "process_loop env pd 0 (take j frames) [] w = (Inr ps, wj)"
    by (simp add: process_frames_def pd Let_def)
  have split: "frames = take j frames @ frames ! j # drop (Suc j) frames"
    using j by (simp add: id_take_nth_drop[symmetric])
  have len: "length (take j frames) = j" using j by simp
  have one: "process_one env pd j (frames ! j) ps wj = (Inl e, wj')"
    using fail by (simp add: process_one_Inl)
  have "process_loop env pd 0 (take j frames @ frames ! j # drop (Suc j) frames) [] w =
          (Inl e, wj')"
    by (simp only: process_loop_append loop_pre len) (simp add: one)
  with split have loop: "process_loop env pd 0 frames [] w = (Inl e, wj')" by simp
  with mkpd have pf: "process_frames env w frames output_dir = (Inl e, wj')"
    by (simp add: process_frames_def pd Let_def)
  have same: "wj' = wj"
    using remove_background_from_frame_cases[OF fail] by auto
  have untouched: "files wj' (processed_file pd k) = files w0 (processed_file pd k)"
    if "j \<le> k" for k
  proof -
    have "files wj (processed_file pd k) = files w (processed_file pd k)"
    proof (rule process_loop_files[OF loop_pre])
      fix i assume "0 \<le> i" "i < 0 + length (take j frames)"
      then have "i \<noteq> k" using that len by simp
      then show "processed_file pd k \<noteq> processed_file pd i"
        using processed_file_inj by blast
    qed
    moreover have "files w (processed_file pd k) = files w0 (processed_file pd k)"
      using extract_frames_files[OF ext] by (simp add: pd)
    ultimately show ?thesis by (simp add: same)
  qed
  have "process_video env w0 input_video output_dir max_frames create_webm = (Inl e, wj')"
    using mk ext pf by (simp add: process_video_def)
  with pf untouched show ?thesis by simp
qed

lemma frame_file_0: "frame_file ''out/frames'' 0 = ''out/frames/frame_000000.png''"
  by (simp add: frame_file_def os_path_join_def fmt_06d_def str_nat.simps digit_char_def
        eval_nat_numeral)

lemma frame_file_1: "frame_file ''out/frames'' (Suc 0) = ''out/frames/frame_000001.png''"
  by (simp add: frame_file_def os_path_join_def fmt_06d_def str_nat.simps digit_char_def
        eval_nat_numeral)

lemma frame_file_2: "frame_file ''out/frames'' (Suc (Suc 0)) = ''out/frames/frame_000002.png''"
  by (simp add: frame_file_def os_path_join_def fmt_06d_def str_nat.simps digit_char_def
        eval_nat_numeral)

lemma processed_file_0:
  "processed_file ''out/processed_frames'' 0 = ''out/processed_frames/processed_frame_000000.png''"
  by (simp add: processed_file_def os_path_join_def fmt_06d_def str_nat.simps digit_char_def
        eval_nat_numeral)

lemma processed_file_1:
  "processed_file ''out/processed_frames'' (Suc 0) =
     ''out/processed_frames/processed_frame_000001.png''"
  by (simp add: processed_file_def os_path_join_def fmt_06d_def str_nat.simps digit_char_def
        eval_nat_numeral)

lemma processed_file_2:
  "processed_file ''out/processed_frames'' (Suc (Suc 0)) =
     ''out/processed_frames/processed_frame_000002.png''"
  by (simp add: processed_file_def os_path_join_def fmt_06d_def str_nat.simps digit_char_def
        eval_nat_numeral)

lemmas demo_names = frame_file_0 frame_file_1 frame_file_2
  processed_file_0 processed_file_1 processed_file_2

lemma out_dirs:
  "os_path_join ''out'' ''frames'' = ''out/frames''"
  "os_path_join ''out'' ''processed_frames'' = ''out/processed_frames''"
  "os_path_join ''out'' ''output_transparent.mp4'' = ''out/output_transparent.mp4''"
  "os_path_join ''out'' ''output_transparent.webm'' = ''out/output_transparent.webm''"
  by (simp_all add: os_path_join_def)

theorem fail_fast_witness:
  "fst (process_video demo_env demo_world ''bad.mp4'' ''out'' None True) =
     Inl (ExternalError ''bad frame'')
   \<and> files (snd (process_video demo_env demo_world ''bad.mp4'' ''out'' None True))
       ''out/processed_frames/processed_frame_000002.png'' = None"
proof -
  define F where "F = [''out/frames/frame_000000.png'', ''out/frames/frame_000001.png'',
    ''out/frames/frame_000002.png'']"
  define W where "W = snd (extract_frames demo_env demo_world ''bad.mp4'' ''out'' None)"
  define WJ where "WJ = snd (process_frames demo_env W (take 1 F) ''out'')"
  have mk: "can_makedirs demo_env ''out''" by (simp add: demo_env_def)
  have e1: "fst (extract_frames demo_env demo_world ''bad.mp4'' ''out'' None) =
      Inr (3, 25, 4, 2, F)"
    by (simp add: extract_frames_def demo_env_def demo_capture_def bad_video_def demo_world_def
          out_dirs cap_reached_def imwrite_def Let_def demo_names F_def)
  then have ext: "extract_frames demo_env demo_world ''bad.mp4'' ''out'' None =
      (Inr (3, 25, 4, 2, F), W)"
    by (simp add: W_def prod_eq_iff)
  have fW0: "files W ''out/frames/frame_000000.png'' = Some [1]"
    by (simp add: W_def extract_frames_def demo_env_def demo_capture_def bad_video_def
          demo_world_def out_dirs cap_reached_def imwrite_def Let_def demo_names)
  have fW1: "files W ''out/frames/frame_000001.png'' = Some [13]"
    by (simp add: W_def extract_frames_def demo_env_def demo_capture_def bad_video_def
          demo_world_def out_dirs cap_reached_def imwrite_def Let_def demo_names)
  have j: "1 < length F" by (simp add: F_def)
  have p1: "fst (process_frames demo_env W (take 1 F) ''out'') =
      Inr [''out/processed_frames/processed_frame_000000.png'']"
    by (simp add: F_def process_frames_def out_dirs process_one_def
          remove_background_from_frame_def fW0 demo_env_def demo_segment_def Let_def demo_names)
  then have pre: "process_frames demo_env W (take 1 F) ''out'' =
      (Inr [''out/processed_frames/processed_frame_000000.png''], WJ)"
    by (simp add: WJ_def prod_eq_iff)
  have fWJ: "files WJ ''out/frames/frame_000001.png'' = Some [13]"
    by (simp add: WJ_def F_def process_frames_def out_dirs process_one_def
          remove_background_from_frame_def fW0 fW1 demo_env_def demo_segment_def Let_def
          demo_names)
  have fail: "remove_background_from_frame demo_env WJ (F ! 1)
      (processed_file ''out/processed_frames'' 1) = (Inl (ExternalError ''bad frame''), WJ)"
    by (simp add: F_def remove_background_from_frame_def fWJ demo_env_def demo_segment_def)
  have pd: "''out/processed_frames'' = os_path_join ''out'' ''processed_frames''"
    by (simp add: out_dirs)
  have none: "files demo_world (processed_file ''out/processed_frames'' 2) = None"
    by (simp add: demo_world_def)
  have two: "processed_file ''out/processed_frames'' 2 =
      ''out/processed_frames/processed_frame_000002.png''"
    using processed_file_2 by (simp add: eval_nat_numeral)
  note ff = fail_fast[OF mk ext j pre fail pd, of True]
  from ff have pv: "process_video demo_env demo_world ''bad.mp4'' ''out'' None True =
      (Inl (ExternalError ''bad frame''), WJ)"
    by simp
  from ff have "1 \<le> k \<longrightarrow> files WJ (processed_file ''out/processed_frames'' k) =
      files demo_world (processed_file ''out/processed_frames'' k)" for k
    by simp
  from this[of 2] none two
  have "files WJ ''out/processed_frames/processed_frame_000002.png'' = None" by simp
  with pv show ?thesis by simp
qed

lemma process_frames_returned:
  assumes ret: "process_frames env w frames output_dir = (Inr ps, w')"
    and pd: "pd = os_path_join output_dir ''processed_frames''"
  shows "length ps = length frames
       \<and> (\<forall>i<length frames.
            ps ! i = os_path_join pd (''processed_frame_'' @ fmt_06d i @ ''.png'')
            \<and> (\<exists>wi input_data output_data.
                 process_frames env w (take i frames) output_dir = (Inr (take i ps), wi)
                 \<and> files wi (frames ! i) = Some input_data
                 \<and> (frames ! i \<notin> set (take i ps) \<longrightarrow> files w (frames ! i) = Some input_data)
                 \<and> segment env input_data = Inr output_data
                 \<and> files w' (ps ! i) = Some output_data))"
proof -
  from ret have mkpd: "can_makedirs env pd"
    by (auto simp: process_frames_def pd Let_def split: if_splits)
  with ret have loop: "process_loop env pd 0 frames [] w = (Inr ps, w')"
    by (simp add: process_frames_def pd Let_def)
  from process_loop_paths[OF loop]
  have ps: "ps = map (processed_file pd) [0 ..< length frames]" by simp
  then have len: "length ps = length frames" by simp
  have each: "ps ! i = os_path_join pd (''processed_frame_'' @ fmt_06d i @ ''.png'')
       \<and> (\<exists>wi input_data output_data.
             process_frames env w (take i frames) output_dir = (Inr (take i ps), wi)
             \<and> files wi (frames ! i) = Some input_data
             \<and> (frames ! i \<notin> set (take i ps) \<longrightarrow> files w (frames ! i) = Some input_data)
             \<and> segment env input_data = Inr output_data
             \<and> files w' (ps ! i) = Some output_data)"
    if i: "i < length frames" for i
  proof -
    have nth: "ps ! i = processed_file pd i" using i by (simp add: ps)
    have tk: "take i ps = map (processed_file pd) [0 ..< i]"
      using i by (simp add: ps take_map)
    have split: "frames = take i frames @ frames ! i # drop (Suc i) frames"
      using i by (simp add: id_take_nth_drop[symmetric])
    have leni: "length (take i frames) = i" using i by simp
    obtain r1 wi where pre: "process_loop env pd 0 (take i frames) [] w = (r1, wi)"
      by (cases "process_loop env pd 0 (take i frames) [] w") auto
    have whole: "process_loop env pd 0 (take i frames @ frames ! i # drop (Suc i) frames) [] w
        = (Inr ps, w')"
      using loop split by simp
    from whole obtain acc1 where r1: "r1 = Inr acc1"
      by (cases r1) (simp_all add: process_loop_append pre)
    have "process_loop env pd 0 (take i frames @ frames ! i # drop (Suc i) frames) [] w =
        process_loop env pd (0 + length (take i frames)) (frames ! i # drop (Suc i) frames)
          acc1 wi"
      by (simp only: process_loop_append pre r1 prod.case sum.case)
    with whole have tail: "process_loop env pd i (frames ! i # drop (Suc i) frames) acc1 wi
        = (Inr ps, w')"
      by (simp only: leni add_0)
    have mi: "min (length frames) i = i" using i by simp
    from process_loop_paths[OF pre[unfolded r1]] have acc1: "acc1 = take i ps"
      by (simp add: tk mi)
    from tail obtain acc2 w2 where
      one: "process_one env pd i (frames ! i) acc1 wi = (Inr acc2, w2)"
      and rest: "process_loop env pd (Suc i) (drop (Suc i) frames) acc2 w2 = (Inr ps, w')"
      by (auto split: prod.splits sum.splits)
    from one have rb: "remove_background_from_frame env wi (frames ! i) (processed_file pd i)
        = (Inr (), w2)"
      by (simp add: process_one_Inr)
    from remove_background_from_frame_cases[OF rb] obtain input_data output_data where
      inp: "files wi (frames ! i) = Some input_data"
      and seg: "segment env input_data = Inr output_data"
      and w2: "w2 = wi\<lparr>files := (files wi)(processed_file pd i \<mapsto> output_data)\<rparr>"
      by auto
    have "files w' (processed_file pd i) = files w2 (processed_file pd i)"
    proof (rule process_loop_files[OF rest])
      fix k assume "Suc i \<le> k"
      then have "i \<noteq> k" by simp
      then show "processed_file pd i \<noteq> processed_file pd k"
        using processed_file_inj by blast
    qed
    then have out: "files w' (ps ! i) = Some output_data" by (simp add: w2 nth)
    have start: "files w (frames ! i) = Some input_data" if "frames ! i \<notin> set (take i ps)"
    proof -
      have "files wi (frames ! i) = files w (frames ! i)"
      proof (rule process_loop_files[OF pre])
        fix k assume "k < 0 + length (take i frames)"
        then have "processed_file pd k \<in> set (take i ps)" by (simp add: tk leni)
        with that show "frames ! i \<noteq> processed_file pd k" by auto
      qed
      with inp show ?thesis by simp
    qed
    have "process_frames env w (take i frames) output_dir = (Inr (take i ps), wi)"
      using mkpd pre r1 acc1 by (simp add: process_frames_def pd Let_def)
    with nth inp seg out start show ?thesis
      by (auto simp: processed_file_def)
  qed
  from len each show ?thesis by blast
qed

lemma process_loop_returns:
  assumes "\<And>k. k < length fs \<Longrightarrow>
             (\<exists>input_data output_data.
                files w (fs ! k) = Some input_data \<and> segment env input_data = Inr output_data)
             \<and> can_write env (processed_file d (i + k))
             \<and> (\<forall>m. fs ! k \<noteq> processed_file d m)"
  shows "\<exists>ps w'. process_loop env d i fs acc w = (Inr ps, w')"
  using assms
proof (induction fs arbitrary: i acc w)
  case Nil
  show ?case by simp
next
  case (Cons f fs)
  from Cons.prems[of 0] obtain input_data output_data where
    inp: "files w f = Some input_data" and seg: "segment env input_data = Inr output_data"
    and cw: "can_write env (processed_file d i)"
    by auto
  let ?w1 = "w\<lparr>files := (files w)(processed_file d i \<mapsto> output_data)\<rparr>"
  have one: "process_one env d i f acc w = (Inr (acc @ [processed_file d i]), ?w1)"
    using inp seg cw by (simp add: process_one_def remove_background_from_frame_def Let_def)
  have "\<exists>ps w'. process_loop env d (Suc i) fs (acc @ [processed_file d i]) ?w1 = (Inr ps, w')"
  proof (rule Cons.IH)
    fix k assume k: "k < length fs"
    from Cons.prems[of "Suc k"] k have
      a: "\<exists>input_data output_data.
            files w (fs ! k) = Some input_data \<and> segment env input_data = Inr output_data"
      and b: "can_write env (processed_file d (Suc i + k))"
      and c: "\<forall>m. fs ! k \<noteq> processed_file d m"
      by simp_all
    from c have "files ?w1 (fs ! k) = files w (fs ! k)" by simp
    with a b c show "(\<exists>input_data output_data.
            files ?w1 (fs ! k) = Some input_data \<and> segment env input_data = Inr output_data)
          \<and> can_write env (processed_file d (Suc i + k))
          \<and> (\<forall>m. fs ! k \<noteq> processed_file d m)"
      by simp
  qed
  with one show ?case by simp
qed

text \<open>
  C2. \<^verbatim>\<open>process_frames\<close> on \<open>K\<close> frame paths returns (rather than raises, see C1)
  when its directory can be created and every input file exists, is accepted by the
  model, can be written and is not itself an output path. Whenever it returns, it
  returns \<open>K\<close> paths; the path at index \<open>i\<close> is
  \<^verbatim>\<open>processed_frames/processed_frame_{i:06d}.png\<close>, and the file there holds the
  segmentation of what the input path at index \<open>i\<close> held when its turn came, after the
  first \<open>i\<close> frames were processed; that is the content it had at the start unless the
  input path is itself one of the earlier output paths.
\<close>

theorem process_frames_order:
  assumes pd: "pd = os_path_join output_dir ''processed_frames''"
  shows "(can_makedirs env pd
          \<and> (\<forall>i<length frames.
                (\<exists>input_data output_data.
                   files w (frames ! i) = Some input_data
                   \<and> segment env input_data = Inr output_data)
                \<and> can_write env (processed_file pd i)
                \<and> (\<forall>m. frames ! i \<noteq> processed_file pd m))
          \<longrightarrow> (\<exists>ps w'. process_frames env w frames output_dir = (Inr ps, w')))
       \<and> (\<forall>ps w'. process_frames env w frames output_dir = (Inr ps, w') \<longrightarrow>
            length ps = length frames
            \<and> (\<forall>i<length frames.
                 ps ! i = os_path_join pd (''processed_frame_'' @ fmt_06d i @ ''.png'')
                 \<and> (\<exists>wi input_data output_data.
                      process_frames env w (take i frames) output_dir = (Inr (take i ps), wi)
                      \<and> files wi (frames ! i) = Some input_data
                      \<and> (frames ! i \<notin> set (take i ps) \<longrightarrow>
                           files w (frames ! i) = Some input_data)
                      \<and> segment env input_data = Inr output_data
                      \<and> files w' (ps ! i) = Some output_data)))"
proof (rule conjI)
  show "can_makedirs env pd
          \<and> (\<forall>i<length frames.
                (\<exists>input_data output_data.
                   files w (frames ! i) = Some input_data
                   \<and> segment env input_data = Inr output_data)
                \<and> can_write env (processed_file pd i)
                \<and> (\<forall>m. frames ! i \<noteq> processed_file pd m))
          \<longrightarrow> (\<exists>ps w'. process_frames env w frames output_dir = (Inr ps, w'))"
  proof (rule impI)
    assume a: "can_makedirs env pd
          \<and> (\<forall>i<length frames.
                (\<exists>input_data output_data.
                   files w (frames ! i) = Some input_data
                   \<and> segment env input_data = Inr output_data)
                \<and> can_write env (processed_file pd i)
                \<and> (\<forall>m. frames ! i \<noteq> processed_file pd m))"
    have "\<exists>ps w'. process_loop env pd 0 frames [] w = (Inr ps, w')"
      by (rule process_loop_returns) (use a in simp)
    with a show "\<exists>ps w'. process_frames env w frames output_dir = (Inr ps, w')"
      by (simp add: process_frames_def pd Let_def)
  qed
next
  show "\<forall>ps w'. process_frames env w frames output_dir = (Inr ps, w') \<longrightarrow>
            length ps = length frames
            \<and> (\<forall>i<length frames.
                 ps ! i = os_path_join pd (''processed_frame_'' @ fmt_06d i @ ''.png'')
                 \<and> (\<exists>wi input_data output_data.
                      process_frames env w (take i frames) output_dir = (Inr (take i ps), wi)
                      \<and> files wi (frames ! i) = Some input_data
                      \<and> (frames ! i \<notin> set (take i ps) \<longrightarrow>
                           files w (frames ! i) = Some input_data)
                      \<and> segment env input_data = Inr output_data
                      \<and> files w' (ps ! i) = Some output_data))"
  proof (intro allI impI)
    fix ps w'
    assume "process_frames env w frames output_dir = (Inr ps, w')"
    then show "length ps = length frames
            \<and> (\<forall>i<length frames.
                 ps ! i = os_path_join pd (''processed_frame_'' @ fmt_06d i @ ''.png'')
                 \<and> (\<exists>wi input_data output_data.
                      process_frames env w (take i frames) output_dir = (Inr (take i ps), wi)
                      \<and> files wi (frames ! i) = Some input_data
                      \<and> (frames ! i \<notin> set (take i ps) \<longrightarrow>
                           files w (frames ! i) = Some input_data)
                      \<and> segment env input_data = Inr output_data
                      \<and> files w' (ps ! i) = Some output_data))"
      using pd by (rule process_frames_returned)
  qed
qed

lemma three_frames_run:
  "fst (process_frames demo_env three_frames_world [''f0'', ''f1'', ''f2''] ''out'') =
     Inr [''out/processed_frames/processed_frame_000000.png'',
          ''out/processed_frames/processed_frame_000001.png'',
          ''out/processed_frames/processed_frame_000002.png'']"
  by (simp add: process_frames_def out_dirs process_one_def remove_background_from_frame_def
        three_frames_world_def demo_env_def demo_segment_def Let_def demo_names)

theorem process_frames_order_witness:
  "(\<exists>ps w'. process_frames demo_env three_frames_world [''f0'', ''f1'', ''f2''] ''out'' =
      (Inr ps, w'))
   \<and> fst (process_frames demo_env three_frames_world [''f0'', ''f1'', ''f2''] ''out'') =
     Inr [''out/processed_frames/processed_frame_000000.png'',
          ''out/processed_frames/processed_frame_000001.png'',
          ''out/processed_frames/processed_frame_000002.png'']
   \<and> files (snd (process_frames demo_env three_frames_world [''f0'', ''f1'', ''f2''] ''out''))
       ''out/processed_frames/processed_frame_000001.png'' = Some [255, 2]"
proof -
  let ?fs = "[''f0'', ''f1'', ''f2'']"
  define W where "W = snd (process_frames demo_env three_frames_world ?fs ''out'')"
  define P where "P = [''out/processed_frames/processed_frame_000000.png'',
          ''out/processed_frames/processed_frame_000001.png'',
          ''out/processed_frames/processed_frame_000002.png'']"
  have ret: "process_frames demo_env three_frames_world ?fs ''out'' = (Inr P, W)"
    using three_frames_run by (simp add: W_def P_def prod_eq_iff)
  have pd: "''out/processed_frames'' = os_path_join ''out'' ''processed_frames''"
    by (simp add: out_dirs)
  have name: "processed_file ''out/processed_frames'' m =
      ''out/processed_frames/processed_frame_'' @ fmt_06d m @ ''.png''" for m
    by (simp add: processed_file_def os_path_join_def)
  have each: "(\<exists>input_data output_data.
          files three_frames_world (?fs ! i) = Some input_data
          \<and> segment demo_env input_data = Inr output_data)
       \<and> can_write demo_env (processed_file ''out/processed_frames'' i)
       \<and> (\<forall>m. ?fs ! i \<noteq> processed_file ''out/processed_frames'' m)"
    if "i < length ?fs" for i
  proof -
    from that have "i = 0 \<or> i = 1 \<or> i = 2" by auto
    then show ?thesis
      by (elim disjE)
        (simp_all add: three_frames_world_def demo_env_def demo_segment_def name)
  qed
  have pre: "can_makedirs demo_env ''out/processed_frames''
       \<and> (\<forall>i<length ?fs.
             (\<exists>input_data output_data.
                files three_frames_world (?fs ! i) = Some input_data
                \<and> segment demo_env input_data = Inr output_data)
             \<and> can_write demo_env (processed_file ''out/processed_frames'' i)
             \<and> (\<forall>m. ?fs ! i \<noteq> processed_file ''out/processed_frames'' m))"
    using each by (simp add: demo_env_def)
  note returns = process_frames_order[OF pd, THEN conjunct1, rule_format, OF pre]
  have lt: "1 < length ?fs" by simp
  note at_1 = process_frames_order[OF pd, THEN conjunct2, rule_format, OF ret,
      THEN conjunct2, rule_format, OF lt]
  from at_1 obtain input_data output_data where
    a: "files three_frames_world ''f1'' = Some input_data"
    and b: "segment demo_env input_data = Inr output_data"
    and c: "files W (P ! 1) = Some output_data"
    by (auto simp: P_def)
  from a have "input_data = [2]" by (simp add: three_frames_world_def)
  with b have "output_data = [255, 2]" by (simp add: demo_env_def demo_segment_def)
  with c have "files W ''out/processed_frames/processed_frame_000001.png'' = Some [255, 2]"
    by (simp add: P_def)
  with three_frames_run returns show ?thesis by (simp add: W_def)
qed

section \<open>A video without frames\<close>

lemma extract_frames_length:
  assumes "extract_frames env w video_path output_dir mf = (Inr (n, f, wd, ht, fl), w1)"
  shows "length fl = n"
proof -
  let ?d = "os_path_join output_dir ''frames''"
  from assms have "\<exists>cap::video. extract_loop env mf ?d (v_frames cap) 0 [] w = (n, fl, w1)"
    by (auto simp: extract_frames_def Let_def split: if_splits option.splits prod.splits)
  then obtain cap :: video where
    loop: "extract_loop env mf ?d (v_frames cap) 0 [] w = (n, fl, w1)"
    by blast
  from extract_loop_count[of env mf ?d "v_frames cap" 0 "[]" w]
       extract_loop_paths[of env mf ?d "v_frames cap" 0 "[]" w] loop
  show ?thesis by simp
qed

text \<open>
  C4. The claim reads: a job whose extraction produces zero frames ends in a failure
  carrying a "no frames extracted" error, not in a success with a frame count of
  zero. The code has no such check: for a container that opens and has no frame,
  \<^verbatim>\<open>process_video\<close> returns a result with \<^verbatim>\<open>frame_count = 0\<close>.
\<close>

theorem zero_frames_counterexample:
  "fst (extract_frames demo_env demo_world ''empty.mp4'' ''out'' None) = Inr (0, 25, 4, 2, [])
   \<and> fst (process_video demo_env demo_world ''empty.mp4'' ''out'' None True) =
       Inr \<lparr>r_input_video = ''empty.mp4'', r_output_dir = ''out'', r_frame_count = 0,
            r_fps = 25, r_resolution = (4, 2), r_output_mp4 = ''out/output_transparent.mp4'',
            r_output_webm = None, r_frames_dir = ''out/frames'',
            r_processed_frames_dir = ''out/processed_frames''\<rparr>"
  by (simp add: process_video_def extract_frames_def process_frames_def
        create_transparent_video_def webm_step_def create_webm_with_transparency_def
        demo_env_def demo_capture_def empty_video_def demo_world_def out_dirs Let_def)

text \<open>
  C4, amended. For every job whose extraction phase produces zero frames and whose
  output directories can be created, \<^verbatim>\<open>process_video\<close> does not fail for the lack of
  frames: if the MP4 writer opens it returns a success result with frame count 0, the
  MP4 path (a video of no frames) and \<^verbatim>\<open>output_webm\<close> null (a requested WebM step
  raises on the empty list and is caught); it fails, with the writer's
  \<^verbatim>\<open>ValueError\<close>, only if the writer cannot be opened.
\<close>

theorem zero_frames_outcome:
  assumes mk: "can_makedirs env output_dir"
    and mkp: "can_makedirs env (os_path_join output_dir ''processed_frames'')"
    and ext: "extract_frames env w input_video output_dir max_frames =
                (Inr (0, fps, width, height, frames_list), w1)"
    and mp4: "mp4 = os_path_join output_dir ''output_transparent.mp4''"
  shows "process_video env w input_video output_dir max_frames create_webm =
     (if writer_opens env mp4
      then (Inr \<lparr>r_input_video = input_video, r_output_dir = output_dir, r_frame_count = 0,
                 r_fps = fps, r_resolution = (width, height), r_output_mp4 = mp4,
                 r_output_webm = None, r_frames_dir = os_path_join output_dir ''frames'',
                 r_processed_frames_dir = os_path_join output_dir ''processed_frames''\<rparr>,
            w1\<lparr>videos := (videos w1)(mp4 \<mapsto> [])\<rparr>)
      else (Inl (ValueError ''cannot create video file''), w1))"
proof -
  from extract_frames_length[OF ext] have nil: "frames_list = []" by simp
  have pf: "process_frames env w1 [] output_dir = (Inr [], w1)"
    using mkp by (simp add: process_frames_def Let_def)
  show ?thesis
    using mk ext pf
    by (simp add: process_video_def nil mp4 create_transparent_video_def webm_step_def
          create_webm_with_transparency_def Let_def)
qed

theorem zero_frames_outcome_witness:
  "fst (process_video demo_env demo_world ''empty.mp4'' ''out'' None False) =
     Inr \<lparr>r_input_video = ''empty.mp4'', r_output_dir = ''out'', r_frame_count = 0,
          r_fps = 25, r_resolution = (4, 2), r_output_mp4 = ''out/output_transparent.mp4'',
          r_output_webm = None, r_frames_dir = ''out/frames'',
          r_processed_frames_dir = ''out/processed_frames''\<rparr>"
proof -
  have mk: "can_makedirs demo_env ''out''" by (simp add: demo_env_def)
  have mkp: "can_makedirs demo_env (os_path_join ''out'' ''processed_frames'')"
    by (simp add: demo_env_def)
  have ext: "extract_frames demo_env demo_world ''empty.mp4'' ''out'' None =
      (Inr (0, 25, 4, 2, []), demo_world)"
    by (simp add: extract_frames_def demo_env_def demo_capture_def empty_video_def Let_def)
  have mp4: "''out/output_transparent.mp4'' = os_path_join ''out'' ''output_transparent.mp4''"
    by (simp add: out_dirs)
  have op: "writer_opens demo_env ''out/output_transparent.mp4''" by (simp add: demo_env_def)
  from zero_frames_outcome[OF mk mkp ext mp4, of False] op
  show ?thesis by (simp add: out_dirs)
qed

section \<open>The WebM step\<close>

lemma webm_step_world:
  "webm_step env w create_webm processed_frames output_dir fps = (r, w') \<Longrightarrow>
     files w' = files w \<and> videos w' = videos w \<and> clock w' = clock w"
  by (auto simp: webm_step_def create_webm_with_transparency_def Let_def
        split: if_splits list.splits)

lemma webm_step_reports_path:
  "webm_step env w True (p # ps) output_dir fps =
     (Some (os_path_join output_dir ''output_transparent.webm''),
      w\<lparr>system_calls := system_calls w @
           [(ffmpeg_cmd env fps
               (os_path_join (os_path_dirname p) ''processed_frame_%06d.png'')
               (os_path_join output_dir ''output_transparent.webm''),
             system env
               (ffmpeg_cmd env fps
                  (os_path_join (os_path_dirname p) ''processed_frame_%06d.png'')
                  (os_path_join output_dir ''output_transparent.webm'')))]\<rparr>)"
  by (simp add: webm_step_def create_webm_with_transparency_def Let_def)

text \<open>
  C5. The claim reads: when the transcoder fails, the job still succeeds with the MP4
  path, and the result reports \<^verbatim>\<open>output_webm\<close> as null. The first half holds
  (\<open>webm_step\<close> never raises). The second does not: \<^verbatim>\<open>os.system\<close> returns the exit
  status instead of raising, the status is dropped, and the \<^verbatim>\<open>except\<close> clause that
  sets \<^verbatim>\<open>output_webm = None\<close> is never reached by a failing ffmpeg. Here ffmpeg is not
  installed (exit status 32512 of the shell) and the result names the WebM file.
\<close>

theorem webm_reported_despite_failure:
  "fst (process_video no_ffmpeg_env demo_world ''in/a.mp4'' ''out'' None True) =
     Inr \<lparr>r_input_video = ''in/a.mp4'', r_output_dir = ''out'', r_frame_count = 2,
          r_fps = 25, r_resolution = (4, 2), r_output_mp4 = ''out/output_transparent.mp4'',
          r_output_webm = Some ''out/output_transparent.webm'', r_frames_dir = ''out/frames'',
          r_processed_frames_dir = ''out/processed_frames''\<rparr>
   \<and> map snd (system_calls
        (snd (process_video no_ffmpeg_env demo_world ''in/a.mp4'' ''out'' None True))) = [32512]"
  by (simp add: process_video_def extract_frames_def process_frames_def process_one_def
        remove_background_from_frame_def create_transparent_video_def imread_def
        webm_step_def create_webm_with_transparency_def cap_reached_def imwrite_def
        no_ffmpeg_env_def demo_env_def demo_capture_def demo_video_def demo_segment_def
        demo_world_def out_dirs demo_names Let_def)


section \<open>The stop button\<close>

lemma run_events_raised:
  "k_raised k = Some e \<Longrightarrow>
     run_events env d (replicate n Next_frame) (g, k, w) = (g, k, w)"
  by (induction n) simp_all

lemma run_events_done:
  "k_pending k = [] \<Longrightarrow>
     run_events env d (replicate n Next_frame) (g, k, w) = (g, k, w)"
  by (induction n) (simp_all split: option.splits)

text \<open>
  The event model runs the loop of \<^verbatim>\<open>process_frames\<close>: as many \<open>Next_frame\<close> events
  as there are frames end in the state \<open>process_loop\<close> returns.
\<close>

lemma run_events_process_loop:
  assumes "process_loop env d i fs acc w = (r, w')"
  shows "\<exists>k'. run_events env d (replicate (length fs) Next_frame)
             (g, \<lparr>k_index = i, k_pending = fs, k_processed = acc, k_raised = None\<rparr>, w) =
             (g, k', w')
           \<and> (case r of Inl e \<Rightarrow> k_raised k' = Some e
               | Inr ps \<Rightarrow> k_raised k' = None \<and> k_processed k' = ps)"
  using assms
proof (induction fs arbitrary: i acc w)
  case Nil
  then show ?case by auto
next
  case (Cons f fs)
  obtain r1 w1 where one: "process_one env d i f acc w = (r1, w1)"
    by (cases "process_one env d i f acc w") auto
  show ?case
  proof (cases r1)
    case (Inl e)
    with one Cons.prems have "r = Inl e" "w' = w1" by simp_all
    with one Inl show ?thesis
      by (simp add: run_events_raised)
  next
    case (Inr acc1)
    with one Cons.prems have rest: "process_loop env d (Suc i) fs acc1 w1 = (r, w')"
      by simp
    from Cons.IH[OF rest] one Inr show ?thesis by simp
  qed
qed

text \<open>Presses of the stop button change neither the worker nor the world.\<close>

lemma run_events_ignores_stop:
  "snd (run_events env d evs (g, k, w)) =
   snd (run_events env d (filter (\<lambda>ev. ev = Next_frame) evs) (g', k, w))"
proof (induction evs arbitrary: g g' k w)
  case Nil
  show ?case by simp
next
  case (Cons ev evs)
  show ?case
  proof (cases ev)
    case Stop_pressed
    then show ?thesis using Cons.IH[of "stop_processing g" k w g'] by simp
  next
    case Next_frame
    then show ?thesis
      using Cons.IH
      by (auto split: option.splits list.splits prod.splits sum.splits)
  qed
qed

text \<open>
  C9. The claim reads: a stop request takes effect before the next frame begins, so
  that no frame beyond the one in flight is processed. The worker never reads the
  flag: with three frames and the stop button pressed after the first, the flag is
  \<^verbatim>\<open>False\<close> and the second and the third frame are processed all the same.
\<close>

theorem stop_is_ignored:
  "(case run_events demo_env ''out/processed_frames''
           [Next_frame, Stop_pressed, Next_frame, Next_frame]
           (demo_gui, demo_worker, three_frames_world) of
      (g, k, w) \<Rightarrow>
        (processing g, k_processed k, k_raised k,
         files w ''out/processed_frames/processed_frame_000001.png'',
         files w ''out/processed_frames/processed_frame_000002.png'')) =
   (False,
    [''out/processed_frames/processed_frame_000000.png'',
     ''out/processed_frames/processed_frame_000001.png'',
     ''out/processed_frames/processed_frame_000002.png''],
    None, Some [255, 2], Some [255, 3])"
  by (simp add: demo_gui_def demo_worker_def three_frames_world_def stop_processing_def
        process_one_def remove_background_from_frame_def demo_env_def demo_segment_def
        demo_names Let_def)

section \<open>The batch runner: isolation and statistics\<close>

lemma process_video_paths:
  "process_video env w input_video output_dir mf create_webm = (Inr r, w') \<Longrightarrow>
     r_input_video r = input_video \<and> r_output_dir r = output_dir"
  by (auto simp: process_video_def Let_def split: if_splits prod.splits sum.splits)

lemma process_single_video_entry:
  assumes "process_single_video env w self video_path output_base_dir create_webm = (res, w')"
  shows "j_input_video res = video_path
       \<and> j_video_name res = path_stem video_path
       \<and> j_output_dir res = os_path_join output_base_dir (path_stem video_path)
       \<and> (j_status res = ''success'' \<or> j_status res = ''failed'')"
proof -
  let ?out = "os_path_join output_base_dir (path_stem video_path)"
  let ?w0 = "snd (time_time env w)"
  obtain r w1 where pv:
    "process_video env ?w0 video_path ?out (bp_max_frames self) create_webm = (r, w1)"
    by (cases "process_video env ?w0 video_path ?out (bp_max_frames self) create_webm") auto
  show ?thesis
  proof (cases r)
    case (Inl e)
    with pv assms show ?thesis
      by (auto simp: process_single_video_def Let_def time_time_def)
  next
    case (Inr res')
    with pv process_video_paths[of env ?w0 video_path ?out "bp_max_frames self" create_webm res' w1]
      assms
    show ?thesis
      by (auto simp: process_single_video_def Let_def time_time_def)
  qed
qed

lemma process_single_video_failed:
  assumes "process_video env (snd (time_time env w)) video_path
             (os_path_join output_base_dir (path_stem video_path)) (bp_max_frames self)
             create_webm = (Inl e, w1)"
  shows "fst (process_single_video env w self video_path output_base_dir create_webm) =
     \<lparr>j_status = ''failed'',
      j_error = Some (exn_message e),
      j_processing_time = now env (clock w1) - now env (clock w),
      j_video_name = path_stem video_path,
      j_input_video = video_path,
      j_output_dir = os_path_join output_base_dir (path_stem video_path),
      j_video = None\<rparr>"
  using assms by (simp add: process_single_video_def Let_def time_time_def)

lemma batch_loop_results:
  assumes "batch_loop env fs output_dir create_webm self w = (self', w')"
  shows "\<exists>new. bp_results self' = bp_results self @ new
           \<and> map j_input_video new = fs
           \<and> (\<forall>r\<in>set new. j_status r = ''success'' \<or> j_status r = ''failed'')"
  using assms
proof (induction fs arbitrary: self w)
  case Nil
  then show ?case by simp
next
  case (Cons f fs)
  obtain res w1 where one:
    "process_single_video env w self f output_dir create_webm = (res, w1)"
    by (cases "process_single_video env w self f output_dir create_webm") auto
  with Cons.prems have rest:
    "batch_loop env fs output_dir create_webm (self\<lparr>bp_results := bp_results self @ [res]\<rparr>) w1
       = (self', w')"
    by simp
  from Cons.IH[OF rest] obtain new where
    new: "bp_results self' = (bp_results self @ [res]) @ new"
      "map j_input_video new = fs"
      "\<forall>r\<in>set new. j_status r = ''success'' \<or> j_status r = ''failed''"
    by auto
  from process_single_video_entry[OF one]
  have "j_input_video res = f" "j_status res = ''success'' \<or> j_status res = ''failed''"
    by simp_all
  with new have
    "bp_results self' = bp_results self @ (res # new)
     \<and> map j_input_video (res # new) = f # fs
     \<and> (\<forall>r\<in>set (res # new). j_status r = ''success'' \<or> j_status r = ''failed'')"
    by simp
  then show ?case by (rule exI[of _ "res # new"])
qed

lemma batch_loop_max_frames:
  "batch_loop env fs output_dir create_webm self w = (self', w') \<Longrightarrow>
     bp_max_frames self' = bp_max_frames self"
proof (induction fs arbitrary: self w)
  case Nil
  then show ?case by simp
next
  case (Cons f fs)
  obtain res w1 where one:
    "process_single_video env w self f output_dir create_webm = (res, w1)"
    by (cases "process_single_video env w self f output_dir create_webm") auto
  with Cons.prems have rest:
    "batch_loop env fs output_dir create_webm (self\<lparr>bp_results := bp_results self @ [res]\<rparr>) w1
       = (self', w')"
    by simp
  from Cons.IH[OF rest] show ?case by simp
qed

lemma batch_loop_append:
  "batch_loop env (xs @ ys) output_dir create_webm self w =
     (case batch_loop env xs output_dir create_webm self w of
        (self1, w1) \<Rightarrow> batch_loop env ys output_dir create_webm self1 w1)"
proof (induction xs arbitrary: self w)
  case Nil
  show ?case by simp
next
  case (Cons x xs)
  show ?case by (simp add: Cons.IH split: prod.splits)
qed

lemma process_single_video_self:
  "bp_max_frames s1 = bp_max_frames s2 \<Longrightarrow>
     process_single_video env w s1 video_path output_base_dir create_webm =
     process_single_video env w s2 video_path output_base_dir create_webm"
  by (simp add: process_single_video_def)

text \<open>
  The entry the loop appends for the file at index \<open>i\<close> is what
  \<^verbatim>\<open>process_single_video\<close> returns for that file in the world the loop has reached
  after the first \<open>i\<close> files.
\<close>

lemma batch_loop_entry:
  assumes loop: "batch_loop env fs output_dir create_webm self w = (self', w')"
    and i: "i < length fs"
  shows "\<exists>self_i w_i.
           batch_loop env (take i fs) output_dir create_webm self w = (self_i, w_i)
           \<and> bp_results self' ! (length (bp_results self) + i) =
               fst (process_single_video env w_i self (fs ! i) output_dir create_webm)"
proof -
  obtain self_i w_i where pre:
    "batch_loop env (take i fs) output_dir create_webm self w = (self_i, w_i)"
    by (cases "batch_loop env (take i fs) output_dir create_webm self w") auto
  from batch_loop_results[OF pre] obtain new_i where
    ni: "bp_results self_i = bp_results self @ new_i" "map j_input_video new_i = take i fs"
    by auto
  from ni(2) i have leni: "length new_i = i" by (metis length_map length_take min.absorb2 less_imp_le)
  have mf: "bp_max_frames self_i = bp_max_frames self"
    by (rule batch_loop_max_frames[OF pre])
  obtain res w1 where one:
    "process_single_video env w_i self_i (fs ! i) output_dir create_webm = (res, w1)"
    by (cases "process_single_video env w_i self_i (fs ! i) output_dir create_webm") auto
  have split: "fs = take i fs @ fs ! i # drop (Suc i) fs"
    using i by (simp add: id_take_nth_drop[symmetric])
  have "batch_loop env (take i fs @ fs ! i # drop (Suc i) fs) output_dir create_webm self w =
      batch_loop env (drop (Suc i) fs) output_dir create_webm
        (self_i\<lparr>bp_results := bp_results self_i @ [res]\<rparr>) w1"
    by (simp add: batch_loop_append pre one)
  with split loop have rest:
    "batch_loop env (drop (Suc i) fs) output_dir create_webm
        (self_i\<lparr>bp_results := bp_results self_i @ [res]\<rparr>) w1 = (self', w')"
    by simp
  from batch_loop_results[OF rest] obtain new_r where
    "bp_results self' = (bp_results self_i @ [res]) @ new_r"
    by auto
  with ni(1) have "bp_results self' = bp_results self @ new_i @ res # new_r" by simp
  then have "bp_results self' ! (length (bp_results self) + i) = res"
    using leni by (simp add: nth_append)
  moreover have "res = fst (process_single_video env w_i self (fs ! i) output_dir create_webm)"
    using one process_single_video_self[OF mf, of env w_i "fs ! i" output_dir create_webm]
    by simp
  ultimately show ?thesis using pre by blast
qed

lemma batch_entries_self:
  "bp_max_frames s1 = bp_max_frames s2 \<Longrightarrow>
     batch_entries env s1 fs output_dir create_webm w =
     batch_entries env s2 fs output_dir create_webm w"
proof (induction fs arbitrary: w)
  case Nil
  show ?case by simp
next
  case (Cons f fs)
  from Cons.prems have
    "process_single_video env w s1 f output_dir create_webm =
     process_single_video env w s2 f output_dir create_webm"
    by (rule process_single_video_self)
  with Cons.IH[OF Cons.prems] show ?case by (simp split: prod.splits)
qed

lemma batch_loop_entries:
  "batch_loop env fs output_dir create_webm self w = (self', w') \<Longrightarrow>
     bp_results self' = bp_results self @ batch_entries env self fs output_dir create_webm w"
proof (induction fs arbitrary: self w)
  case Nil
  then show ?case by simp
next
  case (Cons f fs)
  obtain res w1 where one:
    "process_single_video env w self f output_dir create_webm = (res, w1)"
    by (cases "process_single_video env w self f output_dir create_webm") auto
  let ?self1 = "self\<lparr>bp_results := bp_results self @ [res]\<rparr>"
  from one Cons.prems have rest:
    "batch_loop env fs output_dir create_webm ?self1 w1 = (self', w')"
    by simp
  have "batch_entries env ?self1 fs output_dir create_webm w1 =
        batch_entries env self fs output_dir create_webm w1"
    by (rule batch_entries_self) simp
  with Cons.IH[OF rest] one show ?case by simp
qed

lemma process_single_video_success:
  assumes "process_video env (snd (time_time env w)) video_path
             (os_path_join output_base_dir (path_stem video_path)) (bp_max_frames self)
             create_webm = (Inr r, w1)"
  shows "j_status (fst (process_single_video env w self video_path output_base_dir create_webm))
           = ''success''
       \<and> j_video (fst (process_single_video env w self video_path output_base_dir create_webm))
           = Some r"
  using assms by (simp add: process_single_video_def Let_def time_time_def)

lemma success_failed_count:
  "(\<forall>r\<in>set rs. j_status r = ''success'' \<or> j_status r = ''failed'') \<Longrightarrow>
     success_count rs + failed_count rs = length rs"
  by (induction rs) (auto simp: success_count_def failed_count_def)

lemma success_count_le: "success_count rs \<le> length rs"
  by (simp add: success_count_def)

lemma success_count_append: "success_count (xs @ ys) = success_count xs + success_count ys"
  by (simp add: success_count_def)

lemma process_batch_returns:
  assumes mk: "can_makedirs env output_dir"
  shows "\<exists>stats self' w' new.
           process_batch env w self input_dir output_dir create_webm extensions =
             (Inr stats, self', w')
           \<and> bp_results self' = bp_results self @ new
           \<and> map j_input_video new = find_video_files env input_dir extensions
           \<and> (\<forall>r\<in>set new. j_status r = ''success'' \<or> j_status r = ''failed'')
           \<and> s_total stats = length new
           \<and> (find_video_files env input_dir extensions \<noteq> [] \<longrightarrow>
                s_results stats = bp_results self'
                \<and> s_success stats = success_count (bp_results self')
                \<and> s_failed stats = length (bp_results self') - success_count (bp_results self'))"
proof (cases "find_video_files env input_dir extensions = []")
  case True
  with mk show ?thesis by (simp add: process_batch_def)
next
  case False
  let ?fs = "find_video_files env input_dir extensions"
  let ?w0 = "snd (time_time env w)"
  obtain self' w1 where loop: "batch_loop env ?fs output_dir create_webm self ?w0 = (self', w1)"
    by (cases "batch_loop env ?fs output_dir create_webm self ?w0") auto
  from batch_loop_results[OF loop] obtain new where
    new: "bp_results self' = bp_results self @ new" "map j_input_video new = ?fs"
      "\<forall>r\<in>set new. j_status r = ''success'' \<or> j_status r = ''failed''"
    by auto
  from new(2) have len: "length new = length ?fs" by (metis length_map)
  from mk False loop obtain stats w' where
    pb: "process_batch env w self input_dir output_dir create_webm extensions =
           (Inr stats, self', w')"
    and st: "s_total stats = length ?fs" "s_results stats = bp_results self'"
      "s_success stats = success_count (bp_results self')"
      "s_failed stats = length (bp_results self') - success_count (bp_results self')"
    by (auto simp: process_batch_def Let_def time_time_def split: prod.splits)
  with new len show ?thesis by auto
qed

text \<open>
  C6. A failure while processing one file does not abort the batch.
  \<^verbatim>\<open>process_single_video\<close> turns an exception of \<^verbatim>\<open>process_video\<close> into a record with
  status \<^verbatim>\<open>failed\<close>, the message of the exception, the name and the time. And
  \<^verbatim>\<open>process_batch\<close> (once its output directory exists) returns statistics, having
  appended one entry for every discovered file, in order: the entry for the file at
  index \<open>i\<close> is what \<^verbatim>\<open>process_single_video\<close> returns for it in the world reached after
  the first \<open>i\<close> files, so it is the failure record when \<^verbatim>\<open>process_video\<close> raises
  there and a success record when it returns, and the files after it are processed
  all the same. The new successes and failures add up to the total, and they are
  added to the counts of what the list held before.
\<close>

theorem batch_isolation:
  "(process_video env (snd (time_time env w)) video_path
       (os_path_join output_dir (path_stem video_path)) (bp_max_frames self) create_webm =
       (Inl e, w1) \<longrightarrow>
     fst (process_single_video env w self video_path output_dir create_webm) =
       \<lparr>j_status = ''failed'',
        j_error = Some (exn_message e),
        j_processing_time = now env (clock w1) - now env (clock w),
        j_video_name = path_stem video_path,
        j_input_video = video_path,
        j_output_dir = os_path_join output_dir (path_stem video_path),
        j_video = None\<rparr>)
   \<and> (can_makedirs env output_dir \<longrightarrow>
       (\<exists>stats self' w' new.
          process_batch env w self input_dir output_dir create_webm extensions =
            (Inr stats, self', w')
          \<and> bp_results self' = bp_results self @ new
          \<and> new = batch_entries env self (find_video_files env input_dir extensions)
                    output_dir create_webm (snd (time_time env w))
          \<and> length new = length (find_video_files env input_dir extensions)
          \<and> (\<forall>i<length (find_video_files env input_dir extensions).
               \<exists>self_i w_i.
                 batch_loop env (take i (find_video_files env input_dir extensions))
                   output_dir create_webm self (snd (time_time env w)) = (self_i, w_i)
                 \<and> new ! i =
                     fst (process_single_video env w_i self
                           (find_video_files env input_dir extensions ! i) output_dir create_webm)
                 \<and> j_input_video (new ! i) = find_video_files env input_dir extensions ! i
                 \<and> (\<forall>e' w1'.
                       process_video env (snd (time_time env w_i))
                         (find_video_files env input_dir extensions ! i)
                         (os_path_join output_dir
                            (path_stem (find_video_files env input_dir extensions ! i)))
                         (bp_max_frames self) create_webm = (Inl e', w1') \<longrightarrow>
                       j_status (new ! i) = ''failed''
                       \<and> j_error (new ! i) = Some (exn_message e')
                       \<and> j_video (new ! i) = None)
                 \<and> (\<forall>r w1'.
                       process_video env (snd (time_time env w_i))
                         (find_video_files env input_dir extensions ! i)
                         (os_path_join output_dir
                            (path_stem (find_video_files env input_dir extensions ! i)))
                         (bp_max_frames self) create_webm = (Inr r, w1') \<longrightarrow>
                       j_status (new ! i) = ''success'' \<and> j_video (new ! i) = Some r))
          \<and> s_total stats = length (find_video_files env input_dir extensions)
          \<and> success_count new + failed_count new = s_total stats
          \<and> (find_video_files env input_dir extensions \<noteq> [] \<longrightarrow>
               s_results stats = bp_results self'
               \<and> s_success stats = success_count (bp_results self) + success_count new
               \<and> s_failed stats =
                   (length (bp_results self) - success_count (bp_results self))
                   + failed_count new)))"
proof (rule conjI)
  show "process_video env (snd (time_time env w)) video_path
       (os_path_join output_dir (path_stem video_path)) (bp_max_frames self) create_webm =
       (Inl e, w1) \<longrightarrow>
     fst (process_single_video env w self video_path output_dir create_webm) =
       \<lparr>j_status = ''failed'',
        j_error = Some (exn_message e),
        j_processing_time = now env (clock w1) - now env (clock w),
        j_video_name = path_stem video_path,
        j_input_video = video_path,
        j_output_dir = os_path_join output_dir (path_stem video_path),
        j_video = None\<rparr>"
    by (rule impI) (rule process_single_video_failed)
next
  let ?fs = "find_video_files env input_dir extensions"
  let ?w0 = "snd (time_time env w)"
  let ?entry = "\<lambda>new i. \<exists>self_i w_i.
                 batch_loop env (take i ?fs) output_dir create_webm self ?w0 = (self_i, w_i)
                 \<and> new ! i = fst (process_single_video env w_i self (?fs ! i) output_dir create_webm)
                 \<and> j_input_video (new ! i) = ?fs ! i
                 \<and> (\<forall>e' w1'.
                       process_video env (snd (time_time env w_i)) (?fs ! i)
                         (os_path_join output_dir (path_stem (?fs ! i)))
                         (bp_max_frames self) create_webm = (Inl e', w1') \<longrightarrow>
                       j_status (new ! i) = ''failed''
                       \<and> j_error (new ! i) = Some (exn_message e')
                       \<and> j_video (new ! i) = None)
                 \<and> (\<forall>r w1'.
                       process_video env (snd (time_time env w_i)) (?fs ! i)
                         (os_path_join output_dir (path_stem (?fs ! i)))
                         (bp_max_frames self) create_webm = (Inr r, w1') \<longrightarrow>
                       j_status (new ! i) = ''success'' \<and> j_video (new ! i) = Some r)"
  show "can_makedirs env output_dir \<longrightarrow>
       (\<exists>stats self' w' new.
          process_batch env w self input_dir output_dir create_webm extensions =
            (Inr stats, self', w')
          \<and> bp_results self' = bp_results self @ new
          \<and> new = batch_entries env self ?fs output_dir create_webm ?w0
          \<and> length new = length ?fs
          \<and> (\<forall>i<length ?fs. ?entry new i)
          \<and> s_total stats = length ?fs
          \<and> success_count new + failed_count new = s_total stats
          \<and> (?fs \<noteq> [] \<longrightarrow>
               s_results stats = bp_results self'
               \<and> s_success stats = success_count (bp_results self) + success_count new
               \<and> s_failed stats =
                   (length (bp_results self) - success_count (bp_results self))
                   + failed_count new))"
  proof (rule impI)
    assume mk: "can_makedirs env output_dir"
    from process_batch_returns[OF mk, of w self input_dir create_webm extensions]
    obtain stats self' w' new where
      pb: "process_batch env w self input_dir output_dir create_webm extensions =
             (Inr stats, self', w')"
      and res: "bp_results self' = bp_results self @ new"
      and inp: "map j_input_video new = ?fs"
      and st: "\<forall>r\<in>set new. j_status r = ''success'' \<or> j_status r = ''failed''"
      and tot: "s_total stats = length new"
      and cnt: "?fs \<noteq> [] \<longrightarrow>
                  s_results stats = bp_results self'
                  \<and> s_success stats = success_count (bp_results self')
                  \<and> s_failed stats = length (bp_results self') - success_count (bp_results self')"
      by blast
    from inp have len: "length new = length ?fs" by (metis length_map)
    have sf: "success_count new + failed_count new = length new"
      by (rule success_failed_count[OF st])
    have a: "s_total stats = length ?fs" using tot len by simp
    have b: "success_count new + failed_count new = s_total stats" using sf tot by simp
    have c: "?fs \<noteq> [] \<longrightarrow>
               s_results stats = bp_results self'
               \<and> s_success stats = success_count (bp_results self) + success_count new
               \<and> s_failed stats =
                   (length (bp_results self) - success_count (bp_results self)) + failed_count new"
    proof (rule impI)
      assume ne: "?fs \<noteq> []"
      from cnt ne have r: "s_results stats = bp_results self'"
        and s: "s_success stats = success_count (bp_results self')"
        and f: "s_failed stats = length (bp_results self') - success_count (bp_results self')"
        by simp_all
      have "success_count (bp_results self) \<le> length (bp_results self)"
        by (rule success_count_le)
      with r s f sf show "s_results stats = bp_results self'
               \<and> s_success stats = success_count (bp_results self) + success_count new
               \<and> s_failed stats =
                   (length (bp_results self) - success_count (bp_results self)) + failed_count new"
        by (simp add: res success_count_append)
    qed
    have d: "?entry new i" if i: "i < length ?fs" for i
    proof -
      from i have ne: "?fs \<noteq> []" by auto
      from pb mk ne have loop:
        "batch_loop env ?fs output_dir create_webm self ?w0 = (self', snd (batch_loop env ?fs output_dir create_webm self ?w0))"
        by (auto simp: process_batch_def Let_def time_time_def split: prod.splits)
      from batch_loop_entry[OF loop i] obtain self_i w_i where
        pre: "batch_loop env (take i ?fs) output_dir create_webm self ?w0 = (self_i, w_i)"
        and ent: "bp_results self' ! (length (bp_results self) + i) =
               fst (process_single_video env w_i self (?fs ! i) output_dir create_webm)"
        by blast
      from res have nth: "bp_results self' ! (length (bp_results self) + i) = new ! i"
        by (simp add: nth_append)
      with ent have eq:
        "new ! i = fst (process_single_video env w_i self (?fs ! i) output_dir create_webm)"
        by simp
      from inp i have ji: "j_input_video (new ! i) = ?fs ! i"
        by (metis len nth_map)
      have fl: "j_status (new ! i) = ''failed'' \<and> j_error (new ! i) = Some (exn_message e')
                \<and> j_video (new ! i) = None"
        if "process_video env (snd (time_time env w_i)) (?fs ! i)
              (os_path_join output_dir (path_stem (?fs ! i)))
              (bp_max_frames self) create_webm = (Inl e', w1')" for e' w1'
        using process_single_video_failed[OF that] by (simp add: eq)
      have su: "j_status (new ! i) = ''success'' \<and> j_video (new ! i) = Some r"
        if "process_video env (snd (time_time env w_i)) (?fs ! i)
              (os_path_join output_dir (path_stem (?fs ! i)))
              (bp_max_frames self) create_webm = (Inr r, w1')" for r w1'
        using process_single_video_success[OF that] by (simp add: eq)
      from pre eq ji fl su show ?thesis by blast
    qed
    from d have d': "\<forall>i<length ?fs. ?entry new i" by blast
    have ents: "new = batch_entries env self ?fs output_dir create_webm ?w0"
    proof (cases "?fs = []")
      case True
      with len show ?thesis by simp
    next
      case False
      from pb mk False have
        "batch_loop env ?fs output_dir create_webm self ?w0 =
           (self', snd (batch_loop env ?fs output_dir create_webm self ?w0))"
        by (auto simp: process_batch_def Let_def time_time_def split: prod.splits)
      from batch_loop_entries[OF this] res show ?thesis by simp
    qed
    from pb res ents len d' a b c
    show "\<exists>stats self' w' new.
          process_batch env w self input_dir output_dir create_webm extensions =
            (Inr stats, self', w')
          \<and> bp_results self' = bp_results self @ new
          \<and> new = batch_entries env self ?fs output_dir create_webm ?w0
          \<and> length new = length ?fs
          \<and> (\<forall>i<length ?fs. ?entry new i)
          \<and> s_total stats = length ?fs
          \<and> success_count new + failed_count new = s_total stats
          \<and> (?fs \<noteq> [] \<longrightarrow>
               s_results stats = bp_results self'
               \<and> s_success stats = success_count (bp_results self) + success_count new
               \<and> s_failed stats =
                   (length (bp_results self) - success_count (bp_results self))
                   + failed_count new)"
      by (intro exI conjI)
  qed
qed

text \<open>
  C10. On a fresh processor (\<^verbatim>\<open>self.results\<close> empty) whose discovery finds at least
  one file, \<^verbatim>\<open>process_batch\<close> returns statistics with
  \<^verbatim>\<open>success + failed = total\<close>, and the result list, which is the list stored on the
  processor, has exactly one entry per discovered file, in discovery order.
\<close>

theorem fresh_batch_invariant:
  assumes fresh: "bp_results self = []"
    and found: "find_video_files env input_dir extensions \<noteq> []"
    and mk: "can_makedirs env output_dir"
  shows "\<exists>stats self' w'.
           process_batch env w self input_dir output_dir create_webm extensions =
             (Inr stats, self', w')
           \<and> s_success stats + s_failed stats = s_total stats
           \<and> length (s_results stats) = s_total stats
           \<and> map j_input_video (s_results stats) = find_video_files env input_dir extensions
           \<and> bp_results self' = s_results stats"
proof -
  from process_batch_returns[OF mk, of w self input_dir create_webm extensions]
  obtain stats self' w' new where
    pb: "process_batch env w self input_dir output_dir create_webm extensions =
           (Inr stats, self', w')"
    and res: "bp_results self' = bp_results self @ new"
    and inp: "map j_input_video new = find_video_files env input_dir extensions"
    and tot: "s_total stats = length new"
    and cnt: "find_video_files env input_dir extensions \<noteq> [] \<longrightarrow>
                s_results stats = bp_results self'
                \<and> s_success stats = success_count (bp_results self')
                \<and> s_failed stats = length (bp_results self') - success_count (bp_results self')"
    by blast
  from res fresh have r: "bp_results self' = new" by simp
  from cnt found r have s: "s_results stats = new" "s_success stats = success_count new"
    "s_failed stats = length new - success_count new"
    by simp_all
  have "success_count new \<le> length new" by (rule success_count_le)
  with s tot have "s_success stats + s_failed stats = s_total stats" by simp
  with pb s tot inp r show ?thesis by auto
qed

section \<open>Discovery\<close>

lemma demo_discovery:
  "find_video_files demo_env ''in'' None = [''in/a.mp4'', ''in/b.mp4'', ''in/c.mp4'']"
  by code_simp

text \<open>
  C8. \<^verbatim>\<open>find_video_files\<close> returns a list without repetitions, sorted in the
  lexicographic order of strings, of exactly the paths the globs of the extensions
  match; and two listings of the directory that match the same paths for every
  pattern, in whatever order and with whatever repetitions they enumerate them, give
  the same list in the same order.
\<close>

theorem find_video_files_deterministic:
  "sorted (find_video_files env input_dir extensions)
   \<and> distinct (find_video_files env input_dir extensions)
   \<and> (path_exists env input_dir \<longrightarrow>
        set (find_video_files env input_dir extensions) =
          (\<Union>ext \<in> set (case extensions of None \<Rightarrow> default_extensions | Some xs \<Rightarrow> xs).
             set (glob env input_dir (''**/*'' @ ext))))
   \<and> (path_exists env' input_dir = path_exists env input_dir
        \<and> (\<forall>pat. set (glob env' input_dir pat) = set (glob env input_dir pat)) \<longrightarrow>
        find_video_files env' input_dir extensions = find_video_files env input_dir extensions)"
proof -
  let ?exts = "case extensions of None \<Rightarrow> default_extensions | Some xs \<Rightarrow> xs"
  have s: "set (globbed e input_dir ?exts) =
      (\<Union>ext \<in> set ?exts. set (glob e input_dir (''**/*'' @ ext)))" for e :: env
    by (simp add: globbed_def)
  have a: "sorted (find_video_files env input_dir extensions)"
    by (simp add: find_video_files_def Let_def)
  have b: "distinct (find_video_files env input_dir extensions)"
    by (simp add: find_video_files_def Let_def)
  have c: "set (find_video_files env input_dir extensions) =
      (\<Union>ext \<in> set ?exts. set (glob env input_dir (''**/*'' @ ext)))"
    if "path_exists env input_dir"
    using that by (simp add: find_video_files_def Let_def s)
  have d: "find_video_files env' input_dir extensions = find_video_files env input_dir extensions"
    if "path_exists env' input_dir = path_exists env input_dir"
      and "\<forall>pat. set (glob env' input_dir pat) = set (glob env input_dir pat)"
  proof -
    from that(2) have "set (globbed env' input_dir ?exts) = set (globbed env input_dir ?exts)"
      by (simp add: s)
    with that(1) show ?thesis by (simp add: find_video_files_def Let_def)
  qed
  from a b c d show ?thesis by blast
qed

theorem find_video_files_deterministic_witness:
  "find_video_files demo_env ''in'' None = [''in/a.mp4'', ''in/b.mp4'', ''in/c.mp4'']
   \<and> find_video_files demo_env2 ''in'' None = find_video_files demo_env ''in'' None
   \<and> sorted (find_video_files demo_env ''in'' None)
   \<and> distinct (find_video_files demo_env ''in'' None)
   \<and> set (find_video_files demo_env ''in'' None) =
       (\<Union>ext \<in> set default_extensions. set (glob demo_env ''in'' (''**/*'' @ ext)))"
proof -
  note t = find_video_files_deterministic[of demo_env "''in''" None demo_env2]
  have ex: "path_exists demo_env ''in''" by (simp add: demo_env_def)
  have eg: "path_exists demo_env2 ''in'' = path_exists demo_env ''in''
      \<and> (\<forall>pat. set (glob demo_env2 ''in'' pat) = set (glob demo_env ''in'' pat))"
    by (auto simp: demo_env2_def demo_env_def demo_glob_def demo_glob2_def)
  note sorted = t[THEN conjunct1]
  note distinct = t[THEN conjunct2, THEN conjunct1]
  note matched = t[THEN conjunct2, THEN conjunct2, THEN conjunct1, rule_format, OF ex]
  note same = t[THEN conjunct2, THEN conjunct2, THEN conjunct2, rule_format, OF eg]
  from matched have m: "set (find_video_files demo_env ''in'' None) =
       (\<Union>ext \<in> set default_extensions. set (glob demo_env ''in'' (''**/*'' @ ext)))"
    by simp
  from demo_discovery same sorted distinct m show ?thesis by (intro conjI)
qed

lemma demo_failed_job:
  "process_video demo_env W ''in/b.mp4'' out_dir mf cw =
     (Inl (ValueError ''cannot open video file: in/b.mp4''), W)"
  by (simp add: process_video_def extract_frames_def demo_env_def demo_capture_def Let_def)

text \<open>
  The scenario of three videos of which the second does not open: total 3, success 2,
  failed 1.
\<close>

lemma demo_batch_counts:
  "(case fst (process_batch demo_env demo_world (init_processor ''u2net'' None)
            ''in'' ''out'' True None) of
      Inl e \<Rightarrow> None
    | Inr stats \<Rightarrow> Some (s_total stats, s_success stats, s_failed stats,
                         map j_status (s_results stats))) =
   Some (3, 2, 1, [''success'', ''failed'', ''success''])"
  by code_simp

theorem batch_isolation_witness:
  "j_status (fst (process_single_video demo_env demo_world (init_processor ''u2net'' None)
       ''in/b.mp4'' ''out'' True)) = ''failed''
   \<and> j_error (fst (process_single_video demo_env demo_world (init_processor ''u2net'' None)
       ''in/b.mp4'' ''out'' True)) = Some ''cannot open video file: in/b.mp4''
   \<and> (\<exists>stats self' w'.
         process_batch demo_env demo_world (init_processor ''u2net'' None)
           ''in'' ''out'' True None = (Inr stats, self', w')
         \<and> s_total stats = 3 \<and> s_success stats = 2 \<and> s_failed stats = 1
         \<and> length (bp_results self') = 3
         \<and> j_input_video (bp_results self' ! 1) = ''in/b.mp4''
         \<and> j_status (bp_results self' ! 1) = ''failed''
         \<and> j_error (bp_results self' ! 1) = Some ''cannot open video file: in/b.mp4'')"
proof -
  let ?bp = "init_processor ''u2net'' None"
  let ?fs = "find_video_files demo_env ''in'' None"
  note bi = batch_isolation[of demo_env demo_world "''in/b.mp4''" "''out''" ?bp True
      "ValueError ''cannot open video file: in/b.mp4''" "snd (time_time demo_env demo_world)"
      "''in''" None]
  have mk: "can_makedirs demo_env ''out''" by (simp add: demo_env_def)
  note one = bi[THEN conjunct1, rule_format, OF demo_failed_job]
  note two = bi[THEN conjunct2, rule_format, OF mk]
  have a: "j_status (fst (process_single_video demo_env demo_world ?bp ''in/b.mp4'' ''out'' True))
      = ''failed''"
    by (simp only: one job_result.simps)
  have b: "j_error (fst (process_single_video demo_env demo_world ?bp ''in/b.mp4'' ''out'' True))
      = Some ''cannot open video file: in/b.mp4''"
    by (simp only: one job_result.simps exn_message.simps)
  have lt: "1 < length ?fs" by (simp add: demo_discovery)
  have at1: "?fs ! 1 = ''in/b.mp4''" by (simp add: demo_discovery)
  from two have c: "\<exists>stats self' w'.
         process_batch demo_env demo_world ?bp ''in'' ''out'' True None = (Inr stats, self', w')
         \<and> s_total stats = 3 \<and> s_success stats = 2 \<and> s_failed stats = 1
         \<and> length (bp_results self') = 3
         \<and> j_input_video (bp_results self' ! 1) = ''in/b.mp4''
         \<and> j_status (bp_results self' ! 1) = ''failed''
         \<and> j_error (bp_results self' ! 1) = Some ''cannot open video file: in/b.mp4''"
  proof (elim exE conjE)
    fix stats self' w' new
    assume pb: "process_batch demo_env demo_world ?bp ''in'' ''out'' True None =
        (Inr stats, self', w')"
      and res: "bp_results self' = bp_results ?bp @ new"
      and len: "length new = length ?fs"
      and ent: "\<forall>i<length ?fs. \<exists>self_i w_i.
          batch_loop demo_env (take i ?fs) ''out'' True ?bp (snd (time_time demo_env demo_world))
            = (self_i, w_i)
          \<and> new ! i = fst (process_single_video demo_env w_i ?bp (?fs ! i) ''out'' True)
          \<and> j_input_video (new ! i) = ?fs ! i
          \<and> (\<forall>e' w1'.
                process_video demo_env (snd (time_time demo_env w_i)) (?fs ! i)
                  (os_path_join ''out'' (path_stem (?fs ! i))) (bp_max_frames ?bp) True
                  = (Inl e', w1') \<longrightarrow>
                j_status (new ! i) = ''failed'' \<and> j_error (new ! i) = Some (exn_message e')
                \<and> j_video (new ! i) = None)
          \<and> (\<forall>r w1'.
                process_video demo_env (snd (time_time demo_env w_i)) (?fs ! i)
                  (os_path_join ''out'' (path_stem (?fs ! i))) (bp_max_frames ?bp) True
                  = (Inr r, w1') \<longrightarrow>
                j_status (new ! i) = ''success'' \<and> j_video (new ! i) = Some r)"
      and tot: "s_total stats = length ?fs"
    from res have r: "bp_results self' = new" by (simp add: init_processor_def)
    from tot have t: "s_total stats = 3" by (simp add: demo_discovery)
    from len r have l: "length (bp_results self') = 3" by (simp add: demo_discovery)
    from ent[rule_format, OF lt] obtain self_i w_i where
      inp: "j_input_video (new ! 1) = ?fs ! 1"
      and fl: "\<forall>e' w1'.
                process_video demo_env (snd (time_time demo_env w_i)) (?fs ! 1)
                  (os_path_join ''out'' (path_stem (?fs ! 1))) (bp_max_frames ?bp) True
                  = (Inl e', w1') \<longrightarrow>
                j_status (new ! 1) = ''failed'' \<and> j_error (new ! 1) = Some (exn_message e')
                \<and> j_video (new ! 1) = None"
      by blast
    have raised: "process_video demo_env (snd (time_time demo_env w_i)) (?fs ! 1)
                  (os_path_join ''out'' (path_stem (?fs ! 1))) (bp_max_frames ?bp) True
                  = (Inl (ValueError ''cannot open video file: in/b.mp4''),
                     snd (time_time demo_env w_i))"
      by (simp only: at1 demo_failed_job)
    from fl[rule_format, OF raised]
    have f: "j_status (bp_results self' ! 1) = ''failed''"
      "j_error (bp_results self' ! 1) = Some ''cannot open video file: in/b.mp4''"
      by (simp_all add: r)
    from inp have i: "j_input_video (bp_results self' ! 1) = ''in/b.mp4''"
      by (simp only: r at1)
    from pb demo_batch_counts have n: "s_success stats = 2" "s_failed stats = 1"
      by simp_all
    from pb t n l i f show ?thesis by (intro exI conjI)
  qed
  from a b c show ?thesis by (intro conjI)
qed

theorem fresh_batch_invariant_witness:
  "\<exists>stats self' w'.
     process_batch demo_env demo_world (init_processor ''u2net'' None)
       ''in'' ''out'' True None = (Inr stats, self', w')
     \<and> s_success stats + s_failed stats = 3
     \<and> s_total stats = 3
     \<and> map j_input_video (s_results stats) = [''in/a.mp4'', ''in/b.mp4'', ''in/c.mp4'']"
proof -
  let ?bp = "init_processor ''u2net'' None"
  have fresh: "bp_results ?bp = []" by (simp add: init_processor_def)
  have found: "find_video_files demo_env ''in'' None \<noteq> []" by (simp add: demo_discovery)
  have mk: "can_makedirs demo_env ''out''" by (simp add: demo_env_def)
  from fresh_batch_invariant[OF fresh found mk, of demo_world True]
  show ?thesis
  proof (elim exE conjE)
    fix stats self' w'
    assume pb: "process_batch demo_env demo_world ?bp ''in'' ''out'' True None =
        (Inr stats, self', w')"
      and sum: "s_success stats + s_failed stats = s_total stats"
      and len: "length (s_results stats) = s_total stats"
      and inp: "map j_input_video (s_results stats) = find_video_files demo_env ''in'' None"
    from inp have "length (s_results stats) = length (find_video_files demo_env ''in'' None)"
      by (metis length_map)
    with len have t: "s_total stats = 3" by (simp add: demo_discovery)
    from sum t have s: "s_success stats + s_failed stats = 3" by simp
    from inp have i: "map j_input_video (s_results stats) =
        [''in/a.mp4'', ''in/b.mp4'', ''in/c.mp4'']"
      by (simp add: demo_discovery)
    from pb s t i show ?thesis by (intro exI conjI)
  qed
qed

text \<open>
  The result list lives on the processor: a second \<^verbatim>\<open>process_batch\<close> on the same
  object counts the entries of the first call again, so that success and failed no
  longer add up to the total.
\<close>

lemma demo_second_batch:
  "(case process_batch demo_env demo_world (init_processor ''u2net'' None)
           ''in'' ''out'' True None of
      (first, self', w') \<Rightarrow>
        (case fst (process_batch demo_env w' self' ''in'' ''out'' True None) of
           Inl e \<Rightarrow> None
         | Inr stats \<Rightarrow> Some (s_total stats, s_success stats, s_failed stats,
                              length (s_results stats)))) =
   Some (3, 4, 2, 6)"
  by code_simp

section \<open>The blend over white\<close>

subsection \<open>Rounding\<close>







subsection \<open>The two exact cases\<close>







subsection \<open>The general case: within one below the exact value\<close>


text \<open>The stored value is not always the floor of the exact one: for a black pixel of
  alpha 43 the exact value is 212, the float sum falls just below it, and 211 is
  stored.\<close>

lemma blend64_one_below: "blend64 0 43 = 211"
  by code_simp

subsection \<open>The flattening of a frame\<close>





end
